theory Spec2Isabelle
  imports Complex_Main "HOL-Library.Sublist"
begin

section \<open>The Adzuna job search tool (src/components/agent/tools/adzuna.ts)\<close>

text \<open>
  The tool is one exported object \<open>searchAdzunaJobs\<close> with a zod \<open>inputSchema\<close> and an
  asynchronous \<open>execute\<close>, and one helper \<open>mapAdzunaJobToJob\<close>. The embedding follows the
  source top to bottom. JavaScript strings are \<open>string\<close> (UTF-8 bytes), optional
  properties are \<open>option\<close>, and everything the code obtains from its surroundings
  (environment variables, the outcome of each \<open>fetch\<close> call, generated identifiers, the
  clock, the runtime's printing of numbers) is a field of an explicit environment record.
\<close>

subsection \<open>JavaScript library functions used by the tool\<close>

text \<open>A JavaScript \<open>number\<close>: a finite value, one of the two infinities, or \<open>NaN\<close>. The
  finite values are taken from the rationals, which hold every double, whole or not.\<close>

datatype js_number = Finite rat | PosInfinity | NegInfinity | NaN

text \<open>Truthiness of a \<open>string | undefined\<close> and of a \<open>number | undefined\<close> value:
  \<open>undefined\<close>, the empty string, \<open>0\<close> and \<open>NaN\<close> are falsy.\<close>

definition truthy_str :: "string option \<Rightarrow> bool" where
  "truthy_str v = (case v of None \<Rightarrow> False | Some s \<Rightarrow> s \<noteq> [])"

definition truthy_num :: "js_number option \<Rightarrow> bool" where
  "truthy_num v = (case v of None \<Rightarrow> False | Some x \<Rightarrow> x \<noteq> Finite 0 \<and> x \<noteq> NaN)"

text \<open>The whole numbers that the tool itself puts into a string are a status code, the
  constant \<open>maxRetries\<close> and the length of an array. They are far below \<open>10^21\<close>, where
  \<open>Number.prototype.toString\<close> prints the decimal digits, with a leading minus sign for a
  negative number. \<open>toString\<close> is used for these numbers only. A number that comes from
  outside (\<open>resultsCount\<close>, the salary bounds) may be a fraction or beyond \<open>10^21\<close>; it is
  printed by the runtime's own functions, which are fields of the environment below.\<close>

definition digit_char :: "nat \<Rightarrow> char" where
  "digit_char d = ''0123456789'' ! d"

function nat_digits :: "nat \<Rightarrow> string" where
  "nat_digits n =
     (if n < 10 then [digit_char n] else nat_digits (n div 10) @ [digit_char (n mod 10)])"
  by pat_completeness auto
termination
  by (relation "measure (\<lambda>n. n)") auto

declare nat_digits.simps [simp del]

definition toString :: "int \<Rightarrow> string" where
  "toString n = (if n < 0 then CHR ''-'' # nat_digits (nat (- n)) else nat_digits (nat n))"

text \<open>What \<open>toLocaleString()\<close> prints for a whole number under the \<open>en-US\<close> locale: the
  decimal digits in groups of three, counted from the right, with a comma between two
  groups. It serves the sample host below and is no part of the tool.\<close>

fun group_thousands_rev :: "string \<Rightarrow> string" where
  "group_thousands_rev (a # b # c # d # ds) =
     a # b # c # CHR '','' # group_thousands_rev (d # ds)"
| "group_thousands_rev ds = ds"

definition en_US_whole :: "int \<Rightarrow> string" where
  "en_US_whole n =
     (if n < 0 then CHR ''-'' # rev (group_thousands_rev (rev (nat_digits (nat (- n)))))
      else rev (group_thousands_rev (rev (nat_digits (nat n)))))"

text \<open>\<open>String.prototype.toLowerCase\<close>: the letters \<open>A\<close> to \<open>Z\<close> become \<open>a\<close> to \<open>z\<close>,
  every other byte is kept. JavaScript also lowercases letters outside ASCII; the only
  ones whose lowercase form contains an ASCII letter are U+212A (which becomes \<open>k\<close>) and
  U+0130 (which becomes \<open>i\<close> followed by a combining dot), and neither can complete one
  of the three keywords the tool searches for, so the three \<open>includes\<close> tests below are
  decided by the ASCII letters alone.\<close>

definition toLowerCase_char :: "char \<Rightarrow> char" where
  "toLowerCase_char c =
     (case map_of (zip ''ABCDEFGHIJKLMNOPQRSTUVWXYZ'' ''abcdefghijklmnopqrstuvwxyz'') c of
        Some l \<Rightarrow> l
      | None \<Rightarrow> c)"

definition toLowerCase :: "string \<Rightarrow> string" where
  "toLowerCase s = map toLowerCase_char s"

text \<open>\<open>String.prototype.includes\<close>: the argument occurs as a contiguous substring.\<close>

fun includes_str :: "string \<Rightarrow> string \<Rightarrow> bool" where
  "includes_str [] t = (t = [])"
| "includes_str (c # cs) t = (prefix t (c # cs) \<or> includes_str cs t)"

text \<open>\<open>URLSearchParams\<close>: an ordered list of name/value pairs. \<open>toString\<close> serialises it
  as \<open>application/x-www-form-urlencoded\<close>: letters, digits and \<open>* - . _\<close> are kept, a
  space becomes \<open>+\<close>, every other byte becomes \<open>%\<close> and two upper-case hexadecimal
  digits; pairs are joined with \<open>&\<close>, name and value with \<open>=\<close>.\<close>

type_synonym URLSearchParams = "(string \<times> string) list"

definition hex_digit :: "nat \<Rightarrow> char" where
  "hex_digit d = ''0123456789ABCDEF'' ! d"

definition form_unreserved :: "char \<Rightarrow> bool" where
  "form_unreserved c =
     (c \<in> set ''ABCDEFGHIJKLMNOPQRSTUVWXYZabcdefghijklmnopqrstuvwxyz0123456789*-._'')"

definition urlencode_char :: "char \<Rightarrow> string" where
  "urlencode_char c =
     (if c = CHR '' '' then ''+''
      else if form_unreserved c then [c]
      else [CHR ''%'', hex_digit ((of_char c :: nat) div 16), hex_digit ((of_char c :: nat) mod 16)])"

definition urlencode :: "string \<Rightarrow> string" where
  "urlencode s = concat (map urlencode_char s)"

fun params_toString :: "URLSearchParams \<Rightarrow> string" where
  "params_toString [] = []"
| "params_toString [(k, v)] = urlencode k @ ''='' @ urlencode v"
| "params_toString ((k, v) # p # ps) =
     urlencode k @ ''='' @ urlencode v @ ''&'' @ params_toString (p # ps)"

definition params_append :: "URLSearchParams \<Rightarrow> string \<Rightarrow> string \<Rightarrow> URLSearchParams" where
  "params_append params k v = params @ [(k, v)]"

subsection \<open>Data model\<close>

text \<open>\<open>interface AdzunaJob\<close> (the provider's wire shape); nested objects are flattened
  into one field per leaf.\<close>

record AdzunaJob =
  az_id :: string
  az_title :: string
  az_company_display_name :: string
  az_location_display_name :: string
  az_location_area :: "string list option"
  az_description :: string
  salary_min :: "js_number option"
  salary_max :: "js_number option"
  redirect_url :: string
  az_category_label :: "string option"
  az_contract_type :: "string option"
  az_created :: "string option"

text \<open>\<open>interface Job\<close>, as far as \<open>mapAdzunaJobToJob\<close> fills it.\<close>

record Job =
  job_id :: string
  job_title :: string
  job_company :: string
  job_location :: string
  job_salary :: "string option"
  job_description :: string
  job_requirements :: "string list"
  job_url :: string
  job_source :: string
  job_discoveredAt :: string

subsection \<open>\<open>mapAdzunaJobToJob\<close>\<close>

text \<open>What the function draws from its surroundings is passed in: the runtime's
  \<open>Number.prototype.toLocaleString\<close>, which line 61 calls without a locale, so that the
  host's default locale decides what it prints, and the values of \<open>uuidv4()\<close> and
  \<open>new Date().toISOString()\<close>.\<close>

definition extract_requirements :: "string \<Rightarrow> string list" where
  "extract_requirements description =
     (let requirements = [];
          descLower = toLowerCase description;
          requirements =
            (if includes_str descLower ''bachelor'' \<or> includes_str descLower ''degree''
             then requirements @ [''Bachelor's degree or equivalent experience'']
             else requirements);
          requirements =
            (if includes_str descLower ''experience''
             then requirements @ [''Relevant professional experience'']
             else requirements)
      in requirements)"

definition format_salary ::
  "(js_number \<Rightarrow> string) \<Rightarrow> js_number option \<Rightarrow> js_number option \<Rightarrow> string option" where
  "format_salary toLocaleString smin smax =
     (if truthy_num smin \<and> truthy_num smax
      then Some (''$'' @ toLocaleString (the smin) @ '' - $'' @ toLocaleString (the smax))
      else if truthy_num smin
      then Some (''$'' @ toLocaleString (the smin) @ ''+'')
      else None)"

definition mapAdzunaJobToJob ::
  "(js_number \<Rightarrow> string) \<Rightarrow> string \<Rightarrow> string \<Rightarrow> AdzunaJob \<Rightarrow> Job" where
  "mapAdzunaJobToJob toLocaleString uuid now adzunaJob =
     \<lparr> job_id = uuid,
       job_title = az_title adzunaJob,
       job_company = az_company_display_name adzunaJob,
       job_location = az_location_display_name adzunaJob,
       job_salary = format_salary toLocaleString (salary_min adzunaJob) (salary_max adzunaJob),
       job_description = az_description adzunaJob,
       job_requirements = extract_requirements (az_description adzunaJob),
       job_url = redirect_url adzunaJob,
       job_source = ''adzuna'',
       job_discoveredAt = now \<rparr>"

subsection \<open>The tool's surroundings\<close>

text \<open>A value caught by \<open>catch (error: any)\<close> is any JavaScript value. \<open>null\<close> and
  \<open>undefined\<close> have no properties; every other value is reduced to what the handler
  reads from it: \<open>error.name\<close>, \<open>error.code\<close>, \<open>error.cause?.code\<close>,
  \<open>error instanceof Error\<close> and \<open>error.message\<close>. A caught value is a \<open>js_error option\<close>,
  with \<open>None\<close> for \<open>null\<close> and \<open>undefined\<close>.\<close>

record js_error =
  err_name :: "string option"
  err_code :: "string option"
  err_cause_code :: "string option"
  err_instanceof_Error :: bool
  err_message :: string

type_synonym caught = "js_error option"

text \<open>The exception that reading a property of \<open>null\<close> or \<open>undefined\<close> raises.\<close>

datatype thrown = TypeError

text \<open>A \<open>Response\<close>. \<open>body\<close> is what lines 178 to 183 make of it: \<open>Inl e\<close> when
  \<open>response.json()\<close>, reading \<open>data.results\<close> or mapping an entry throws \<open>e\<close>, and
  \<open>Inr results\<close> when the body decodes to a well-formed \<open>AdzunaResponse\<close>.
  \<open>response.ok\<close> is true for the status codes 200 to 299.\<close>

record response =
  status :: nat
  statusText :: string
  body :: "caught + AdzunaJob list"

definition ok :: "response \<Rightarrow> bool" where
  "ok r = (200 \<le> status r \<and> status r \<le> 299)"

datatype fetch_outcome = Rejects caught | Resolves response

text \<open>The environment: the two credentials in \<open>process.env\<close>, the outcome of the
  \<open>attempt\<close>-th call of \<open>fetch\<close> on a URL (a timeout is the rejection with the
  \<open>AbortError\<close> that \<open>controller.abort()\<close> causes), the \<open>i\<close>-th identifier and timestamp
  handed out while the results are mapped, and the runtime's \<open>Number.prototype.toString\<close>
  and \<open>Number.prototype.toLocaleString\<close>.\<close>

record env =
  ADZUNA_APP_ID :: "string option"
  ADZUNA_APP_KEY :: "string option"
  fetch :: "string \<Rightarrow> nat \<Rightarrow> fetch_outcome"
  uuidv4 :: "nat \<Rightarrow> string"
  now_iso :: "nat \<Rightarrow> string"
  Number_toString :: "js_number \<Rightarrow> string"
  Number_toLocaleString :: "js_number \<Rightarrow> string"

text \<open>What a run does to the outside world, in order: network calls and waits.
  Console output is not recorded.\<close>

datatype event = Fetch string | Sleep nat

text \<open>The object \<open>execute\<close> returns. The error literal sets \<open>action\<close>, \<open>error\<close> and
  \<open>jobs\<close>; the display literal sets everything but \<open>error\<close>.\<close>

record SearchResult =
  res_action :: string
  res_jobs :: "Job list"
  res_error :: "string option"
  res_count :: "nat option"
  res_query :: "string option"
  res_location :: "string option"
  res_message :: "string option"

definition error_result :: "string \<Rightarrow> SearchResult" where
  "error_result msg =
     \<lparr> res_action = ''error'', res_jobs = [], res_error = Some msg, res_count = None,
       res_query = None, res_location = None, res_message = None \<rparr>"

text \<open>The destructured parameter of \<open>execute\<close>.\<close>

record execute_args =
  query :: string
  location :: "string option"
  resultsCount :: "js_number option"

subsection \<open>\<open>inputSchema\<close>\<close>

text \<open>The zod schema, as the function that \<open>inputSchema.parse\<close> computes on the three
  properties of a raw argument object: \<open>query\<close> must be a string, \<open>location\<close> a string or
  missing, \<open>resultsCount\<close> a number from 1 to 50 (whole or not: the schema has no
  \<open>int()\<close>; \<open>NaN\<close> is no number for zod) or missing, in which case it becomes 20.
  \<open>None\<close> is the validation error. Nothing in the source file applies the schema:
  \<open>execute\<close> takes its arguments as they come.\<close>

datatype js_value = Undefined | Str string | Num js_number | Other

record raw_args =
  raw_query :: js_value
  raw_location :: js_value
  raw_resultsCount :: js_value

definition parse_query :: "js_value \<Rightarrow> string option" where
  "parse_query v = (case v of Str s \<Rightarrow> Some s | _ \<Rightarrow> None)"

definition parse_location :: "js_value \<Rightarrow> string option option" where
  "parse_location v = (case v of Undefined \<Rightarrow> Some None | Str s \<Rightarrow> Some (Some s) | _ \<Rightarrow> None)"

definition parse_resultsCount :: "js_value \<Rightarrow> js_number option" where
  "parse_resultsCount v =
     (case v of
        Undefined \<Rightarrow> Some (Finite 20)
      | Num (Finite q) \<Rightarrow> if q < 1 then None else if 50 < q then None else Some (Finite q)
      | _ \<Rightarrow> None)"

definition inputSchema_parse :: "raw_args \<Rightarrow> execute_args option" where
  "inputSchema_parse raw =
     (case parse_query (raw_query raw) of
        None \<Rightarrow> None
      | Some q \<Rightarrow>
          (case parse_location (raw_location raw) of
             None \<Rightarrow> None
           | Some l \<Rightarrow>
               (case parse_resultsCount (raw_resultsCount raw) of
                  None \<Rightarrow> None
                | Some n \<Rightarrow> Some \<lparr> query = q, location = l, resultsCount = Some n \<rparr>)))"

subsection \<open>\<open>execute\<close>\<close>

definition baseUrl :: string where
  "baseUrl = ''https://api.adzuna.com/v1/api/jobs/us/search/1''"

definition maxRetries :: nat where
  "maxRetries = 3"

text \<open>The timer of each attempt. When it fires first, \<open>fetch\<close> rejects with an
  \<open>AbortError\<close>; that is how a timeout reaches the model.\<close>

definition timeout :: nat where
  "timeout = 10000"

text \<open>Lines 109 and 125 to 138: the default of \<open>resultsCount\<close> and the request URL, from
  the runtime's \<open>Number.prototype.toString\<close>, the two credentials and the arguments.\<close>

definition request_url ::
  "(js_number \<Rightarrow> string) \<Rightarrow> string \<Rightarrow> string \<Rightarrow> execute_args \<Rightarrow> string" where
  "request_url numberToString appId apiKey args =
     (let resultsCount = (case resultsCount args of None \<Rightarrow> Finite 20 | Some n \<Rightarrow> n);
          params = [(''app_id'', appId), (''app_key'', apiKey),
                    (''results_per_page'', numberToString resultsCount), (''what'', query args)];
          params = (if truthy_str (location args)
                    then params_append params ''where'' (the (location args))
                    else params)
      in baseUrl @ ''?'' @ params_toString params)"

text \<open>Lines 185 to 192: the display literal.\<close>

definition display_result :: "execute_args \<Rightarrow> Job list \<Rightarrow> SearchResult" where
  "display_result args jobs =
     \<lparr> res_action = ''display'',
       res_jobs = jobs,
       res_error = None,
       res_count = Some (length jobs),
       res_query = Some (query args),
       res_location =
         Some (if truthy_str (location args) then the (location args) else ''all locations''),
       res_message =
         Some (''Found '' @ toString (int (length jobs)) @ '' jobs matching '' @ [CHR 0x22]
               @ query args @ [CHR 0x22]
               @ (if truthy_str (location args) then '' in '' @ the (location args) else [])) \<rparr>"

text \<open>Lines 150 to 196: the \<open>try\<close> block of one attempt. \<open>Inl e\<close> is the exception that
  reaches the outer \<open>catch\<close> (the inner \<open>catch\<close> clears the timer and throws it again);
  \<open>Inr r\<close> is a \<open>return r\<close> from inside the block.\<close>

definition attempt_body :: "env \<Rightarrow> string \<Rightarrow> execute_args \<Rightarrow> nat \<Rightarrow> caught + SearchResult" where
  "attempt_body env url args attempt =
     (case fetch env url attempt of
        Rejects fetchError \<Rightarrow> Inl fetchError
      | Resolves response \<Rightarrow>
          if \<not> ok response
          then Inr (error_result (''Adzuna API returned error: '' @ toString (int (status response))
                                  @ '' '' @ statusText response))
          else (case body response of
                  Inl fetchError \<Rightarrow> Inl fetchError
                | Inr results \<Rightarrow>
                    Inr (display_result args
                           (map (\<lambda>(i, adzunaJob).
                                   mapAdzunaJobToJob (Number_toLocaleString env) (uuidv4 env i)
                                     (now_iso env i) adzunaJob)
                                (enumerate 0 results)))))"

text \<open>Lines 197 to 249: the outer \<open>catch\<close>. Its first read, \<open>error.code\<close> in line
  201, has no guard: on \<open>null\<close> and \<open>undefined\<close> it raises a \<open>TypeError\<close>, and nothing
  catches an exception raised inside the handler. On every other value the handler either
  sleeps and continues the loop or returns.\<close>

datatype loop_step = Continue nat | Return SearchResult

definition errorCode_of :: "js_error \<Rightarrow> string option" where
  "errorCode_of error = (if truthy_str (err_code error) then err_code error else err_cause_code error)"

definition catch_handler :: "caught \<Rightarrow> nat \<Rightarrow> thrown + loop_step" where
  "catch_handler caught attempt =
     (case caught of
        None \<Rightarrow> Inl TypeError
      | Some error \<Rightarrow>
          Inr (let errorCode = errorCode_of error;
                   errorName = err_name error
               in if errorName = Some ''AbortError''
                  then (if attempt < maxRetries
                        then Continue (2 ^ (attempt - 1) * 1000)
                        else Return (error_result (''Adzuna API request timed out after ''
                                                   @ toString (int maxRetries) @ '' attempts'')))
                  else if errorCode = Some ''ETIMEDOUT'' \<or> errorCode = Some ''ECONNRESET''
                          \<or> errorCode = Some ''ECONNREFUSED''
                  then (if attempt < maxRetries
                        then Continue (2 ^ (attempt - 1) * 1000)
                        else Return (error_result (''Network error connecting to Adzuna: ''
                                                   @ the errorCode)))
                  else Return (error_result
                                 (if err_instanceof_Error error then err_message error
                                  else ''An unexpected error occurred while searching Adzuna''))))"

text \<open>Lines 149 to 258: the retry loop, and the return after it. The second component of
  the result is \<open>Inr r\<close> when \<open>execute\<close> returns \<open>r\<close> and \<open>Inl t\<close> when the exception \<open>t\<close>
  leaves \<open>execute\<close>. \<open>lastError\<close> starts as \<open>undefined\<close>.\<close>

function retry_loop ::
  "env \<Rightarrow> string \<Rightarrow> execute_args \<Rightarrow> nat \<Rightarrow> caught \<Rightarrow> event list \<times> (thrown + SearchResult)" where
  "retry_loop env url args attempt lastError =
     (if attempt \<le> maxRetries
      then (case attempt_body env url args attempt of
              Inr r \<Rightarrow> ([Fetch url], Inr r)
            | Inl error \<Rightarrow>
                (case catch_handler error attempt of
                   Inl t \<Rightarrow> ([Fetch url], Inl t)
                 | Inr step \<Rightarrow>
                     (case step of
                        Continue delay \<Rightarrow>
                          (case retry_loop env url args (attempt + 1) error of
                             (events, r) \<Rightarrow> (Fetch url # Sleep delay # events, r))
                      | Return r \<Rightarrow> ([Fetch url], Inr r))))
      else ([], Inr (error_result
                       (case lastError of
                          Some e \<Rightarrow> if err_instanceof_Error e then err_message e
                                    else ''Failed to fetch jobs from Adzuna after multiple retries''
                        | None \<Rightarrow> ''Failed to fetch jobs from Adzuna after multiple retries''))))"
  by pat_completeness auto
termination
  by (relation "measure (\<lambda>(env, url, args, attempt, lastError). maxRetries + 1 - attempt)") auto

declare retry_loop.simps [simp del]

text \<open>Lines 109 to 259.\<close>

definition execute :: "env \<Rightarrow> execute_args \<Rightarrow> event list \<times> (thrown + SearchResult)" where
  "execute env args =
     (let appId = ADZUNA_APP_ID env;
          apiKey = ADZUNA_APP_KEY env
      in if \<not> truthy_str appId \<or> \<not> truthy_str apiKey
         then ([], Inr (error_result ''Adzuna API credentials are not configured. Please add ADZUNA_APP_ID and ADZUNA_APP_KEY to your environment variables.''))
         else retry_loop env (request_url (Number_toString env) (the appId) (the apiKey) args)
                args 1 None)"

subsection \<open>Vocabulary of the statements\<close>

text \<open>The two kinds of failure that are to be retried, read off the caught error itself: a
  timeout (the \<open>AbortError\<close> raised when the ten second timer aborts the request), and a
  network error with one of the three codes, which sits on the error or, when the error
  has no code of its own, on its cause (where \<open>fetch\<close> puts it).\<close>

definition is_timeout :: "js_error \<Rightarrow> bool" where
  "is_timeout e = (err_name e = Some ''AbortError'')"

definition retried_code :: "string option \<Rightarrow> bool" where
  "retried_code c =
     (c = Some ''ETIMEDOUT'' \<or> c = Some ''ECONNRESET'' \<or> c = Some ''ECONNREFUSED'')"

definition is_network_error :: "js_error \<Rightarrow> bool" where
  "is_network_error e =
     (retried_code (err_code e)
      \<or> ((err_code e = None \<or> err_code e = Some []) \<and> retried_code (err_cause_code e)))"

definition transient :: "js_error \<Rightarrow> bool" where
  "transient e = (is_timeout e \<or> is_network_error e)"

text \<open>Both credentials pass the test of line 116, and the URL the run then requests.\<close>

definition configured :: "env \<Rightarrow> bool" where
  "configured env = (truthy_str (ADZUNA_APP_ID env) \<and> truthy_str (ADZUNA_APP_KEY env))"

definition url_of :: "env \<Rightarrow> execute_args \<Rightarrow> string" where
  "url_of env args =
     request_url (Number_toString env) (the (ADZUNA_APP_ID env)) (the (ADZUNA_APP_KEY env)) args"

text \<open>Attempt \<open>j\<close> fails with a failure that is to be retried; attempt \<open>k\<close> is reached
  when every attempt before it did; attempt \<open>k\<close> succeeds when it gets a success status
  and a well-formed body.\<close>

definition retried :: "env \<Rightarrow> string \<Rightarrow> execute_args \<Rightarrow> nat \<Rightarrow> bool" where
  "retried env url args j =
     (case attempt_body env url args j of
        Inl None \<Rightarrow> False
      | Inl (Some e) \<Rightarrow> transient e
      | Inr r \<Rightarrow> False)"

definition reached :: "env \<Rightarrow> string \<Rightarrow> execute_args \<Rightarrow> nat \<Rightarrow> bool" where
  "reached env url args k = list_all (retried env url args) [1..<k]"

definition attempt_succeeds :: "env \<Rightarrow> string \<Rightarrow> nat \<Rightarrow> bool" where
  "attempt_succeeds env url k =
     (case fetch env url k of
        Rejects e \<Rightarrow> False
      | Resolves r \<Rightarrow> ok r \<and> (case body r of Inl e \<Rightarrow> False | Inr results \<Rightarrow> True))"

text \<open>The events of the retried attempts \<open>n, \<dots>, k - 1\<close>: each one a network call and
  the wait that follows it.\<close>

definition backoff_events :: "string \<Rightarrow> nat \<Rightarrow> nat \<Rightarrow> event list" where
  "backoff_events url n k = concat (map (\<lambda>j. [Fetch url, Sleep (2 ^ (j - 1) * 1000)]) [n..<k])"

definition fetch_count :: "event list \<Rightarrow> nat" where
  "fetch_count events = length (filter (\<lambda>e. case e of Fetch u \<Rightarrow> True | Sleep d \<Rightarrow> False) events)"

text \<open>Reading a request URL back: the query string after \<open>?\<close>, split at \<open>&\<close> into
  pairs, each pair split at its first \<open>=\<close>. Names and values are left in their encoded
  form.\<close>

fun split_on :: "char \<Rightarrow> string \<Rightarrow> string list" where
  "split_on c [] = [[]]"
| "split_on c (x # xs) =
     (if x = c then [] # split_on c xs
      else (case split_on c xs of [] \<Rightarrow> [[x]] | w # ws \<Rightarrow> (x # w) # ws))"

definition url_query :: "string \<Rightarrow> string" where
  "url_query u = drop 1 (dropWhile (\<lambda>c. c \<noteq> CHR ''?'') u)"

definition split_pair :: "string \<Rightarrow> string \<times> string" where
  "split_pair kv =
     (takeWhile (\<lambda>c. c \<noteq> CHR ''='') kv, drop 1 (dropWhile (\<lambda>c. c \<noteq> CHR ''='') kv))"

definition url_params :: "string \<Rightarrow> (string \<times> string) list" where
  "url_params u = map split_pair (split_on CHR ''&'' (url_query u))"

definition param_names :: "string \<Rightarrow> string list" where
  "param_names u = map fst (url_params u)"

definition param_value :: "string \<Rightarrow> string \<Rightarrow> string option" where
  "param_value u k = map_of (url_params u) k"

text \<open>The characters that delimit a query string never come out of the encoder.\<close>

definition url_safe :: "char \<Rightarrow> bool" where
  "url_safe c = (c \<noteq> CHR ''&'' \<and> c \<noteq> CHR ''='' \<and> c \<noteq> CHR ''?'')"

subsection \<open>Sample inputs\<close>

definition sample_job :: "js_number option \<Rightarrow> js_number option \<Rightarrow> AdzunaJob" where
  "sample_job smin smax =
     \<lparr> az_id = ''4711'', az_title = ''AI Engineer'', az_company_display_name = ''Acme'',
       az_location_display_name = ''Austin, TX'', az_location_area = None,
       az_description = ''Bachelor's degree required, 5 years experience'',
       salary_min = smin, salary_max = smax,
       redirect_url = ''https://www.adzuna.com/land/ad/4711'',
       az_category_label = None, az_contract_type = None, az_created = None \<rparr>"

text \<open>A sample host with the \<open>en-US\<close> locale. The samples hand it whole numbers below
  \<open>10^21\<close> only, and on such a number it prints what JavaScript prints; its value on any
  other number is a placeholder.\<close>

definition whole_toString :: "js_number \<Rightarrow> string" where
  "whole_toString x =
     (case x of
        Finite q \<Rightarrow> if of_int \<lfloor>q\<rfloor> = q \<and> \<bar>q\<bar> < 10 ^ 21 then toString \<lfloor>q\<rfloor> else []
      | _ \<Rightarrow> [])"

definition whole_toLocaleString :: "js_number \<Rightarrow> string" where
  "whole_toLocaleString x =
     (case x of
        Finite q \<Rightarrow> if of_int \<lfloor>q\<rfloor> = q \<and> \<bar>q\<bar> < 10 ^ 21 then en_US_whole \<lfloor>q\<rfloor> else []
      | _ \<Rightarrow> [])"

definition sample_env :: "(nat \<Rightarrow> fetch_outcome) \<Rightarrow> env" where
  "sample_env outcomes =
     \<lparr> ADZUNA_APP_ID = Some ''id1'', ADZUNA_APP_KEY = Some ''key1'',
       fetch = (\<lambda>u. outcomes), uuidv4 = (\<lambda>i. ''job-'' @ toString (int i)),
       now_iso = (\<lambda>i. ''2025-01-01T00:00:00.000Z''),
       Number_toString = whole_toString, Number_toLocaleString = whole_toLocaleString \<rparr>"

definition sample_args :: "string option \<Rightarrow> js_number option \<Rightarrow> execute_args" where
  "sample_args loc n = \<lparr> query = ''AI engineer'', location = loc, resultsCount = n \<rparr>"

definition abort_error :: js_error where
  "abort_error =
     \<lparr> err_name = Some ''AbortError'', err_code = None, err_cause_code = None,
       err_instanceof_Error = True, err_message = ''This operation was aborted'' \<rparr>"

definition conn_reset_error :: js_error where
  "conn_reset_error =
     \<lparr> err_name = Some ''TypeError'', err_code = None, err_cause_code = Some ''ECONNRESET'',
       err_instanceof_Error = True, err_message = ''fetch failed'' \<rparr>"

definition timed_out_error :: js_error where
  "timed_out_error =
     \<lparr> err_name = Some ''Error'', err_code = Some ''ETIMEDOUT'', err_cause_code = None,
       err_instanceof_Error = True, err_message = ''connect ETIMEDOUT'' \<rparr>"

definition blank_error :: js_error where
  "blank_error =
     \<lparr> err_name = Some ''Error'', err_code = None, err_cause_code = None,
       err_instanceof_Error = True, err_message = [] \<rparr>"

definition ok_response :: response where
  "ok_response =
     \<lparr> status = 200, statusText = ''OK'',
       body = Inr [sample_job (Some (Finite 80000)) (Some (Finite 120000))] \<rparr>"

definition busy_response :: response where
  "busy_response = \<lparr> status = 429, statusText = ''Too Many Requests'', body = Inr [] \<rparr>"

text \<open>Environments with both credentials set: two timeouts and then a success; a
  connection reset, a connection timeout and then a success; a connection reset on every
  call; a timeout on every call; an exception with an empty message; a rejection with
  \<open>undefined\<close>; a plain success; a 429 response.\<close>

definition flaky_env :: env where
  "flaky_env =
     sample_env (\<lambda>n. if n < 3 then Rejects (Some abort_error) else Resolves ok_response)"

definition shaky_env :: env where
  "shaky_env =
     sample_env (\<lambda>n. if n = 1 then Rejects (Some conn_reset_error)
                      else if n = 2 then Rejects (Some timed_out_error)
                      else Resolves ok_response)"

definition reset_env :: env where
  "reset_env = sample_env (\<lambda>n. Rejects (Some conn_reset_error))"

definition hung_env :: env where
  "hung_env = sample_env (\<lambda>n. Rejects (Some abort_error))"

definition blank_env :: env where
  "blank_env = sample_env (\<lambda>n. Rejects (Some blank_error))"

definition undefined_env :: env where
  "undefined_env = sample_env (\<lambda>n. Rejects None)"

definition ok_env :: env where
  "ok_env = sample_env (\<lambda>n. Resolves ok_response)"

definition busy_env :: env where
  "busy_env = sample_env (\<lambda>n. Resolves busy_response)"

section \<open>Properties\<close>

subsection \<open>Substrings\<close>

lemma includes_str_sublist: "includes_str s t \<longleftrightarrow> sublist t s"
  by (induction s) (auto simp: sublist_Cons_right)

lemma includes_str_iff: "includes_str s t \<longleftrightarrow> (\<exists>p q. s = p @ t @ q)"
  by (simp add: includes_str_sublist sublist_def)

lemma includes_str_middle: "includes_str (p @ t @ q) t"
  by (auto simp: includes_str_iff)

lemma includes_str_end: "includes_str (p @ t) t"
  using includes_str_middle [of p t "[]"] by simp

subsection \<open>The handler\<close>

text \<open>The code of line 201 extracts one of the three codes exactly from the errors that
  carry it on themselves or, having no code of their own, on their cause.\<close>

lemma is_network_error_errorCode_of:
  "is_network_error e \<longleftrightarrow> retried_code (errorCode_of e)"
  by (cases "err_code e")
     (auto simp: is_network_error_def retried_code_def errorCode_of_def truthy_str_def)

lemma catch_handler_nullish: "catch_handler None attempt = Inl TypeError"
  by (simp add: catch_handler_def)

lemma catch_handler_transient:
  "transient e \<Longrightarrow> attempt < maxRetries \<Longrightarrow>
   catch_handler (Some e) attempt = Inr (Continue (2 ^ (attempt - 1) * 1000))"
  by (auto simp: catch_handler_def transient_def is_timeout_def is_network_error_errorCode_of
      retried_code_def Let_def)

lemma catch_handler_timeout_last:
  "is_timeout e \<Longrightarrow> \<not> attempt < maxRetries \<Longrightarrow>
   catch_handler (Some e) attempt =
     Inr (Return (error_result (''Adzuna API request timed out after '' @ toString (int maxRetries) @ '' attempts'')))"
  by (auto simp: catch_handler_def is_timeout_def Let_def)

lemma catch_handler_network_last:
  "\<not> is_timeout e \<Longrightarrow> is_network_error e \<Longrightarrow> \<not> attempt < maxRetries \<Longrightarrow>
   catch_handler (Some e) attempt =
     Inr (Return (error_result (''Network error connecting to Adzuna: '' @ the (errorCode_of e))))"
  by (auto simp: catch_handler_def is_timeout_def is_network_error_errorCode_of
      retried_code_def Let_def)

lemma catch_handler_other:
  "\<not> transient e \<Longrightarrow>
   catch_handler (Some e) attempt =
     Inr (Return (error_result (if err_instanceof_Error e then err_message e
                                else ''An unexpected error occurred while searching Adzuna'')))"
  by (auto simp: catch_handler_def transient_def is_timeout_def is_network_error_errorCode_of
      retried_code_def Let_def)

lemma catch_handler_Continue:
  "catch_handler c a = Inr (Continue d) \<Longrightarrow> \<exists>e. c = Some e \<and> transient e \<and> a < maxRetries"
  by (cases c)
     (auto simp: catch_handler_def transient_def is_timeout_def is_network_error_errorCode_of
        retried_code_def Let_def split: if_splits)

lemma catch_handler_Return:
  "catch_handler c a = Inr (Return r) \<Longrightarrow>
   \<exists>e. c = Some e \<and> res_action r = ''error'' \<and> res_jobs r = []
       \<and> (transient e \<longrightarrow> \<not> a < maxRetries)
       \<and> (\<exists>msg. res_error r = Some msg
              \<and> (msg = [] \<longrightarrow> \<not> transient e \<and> err_instanceof_Error e \<and> err_message e = []))"
  by (cases c)
     (auto simp: catch_handler_def transient_def is_timeout_def is_network_error_errorCode_of
        retried_code_def Let_def error_result_def split: if_splits)

lemma catch_handler_throws:
  "catch_handler c a = Inl t \<Longrightarrow> c = None"
  by (cases c) (auto simp: catch_handler_def)

subsection \<open>The retry loop, one step at a time\<close>

lemma retry_loop_done:
  "attempt \<le> maxRetries \<Longrightarrow> attempt_body env url args attempt = Inr r \<Longrightarrow>
   retry_loop env url args attempt lastError = ([Fetch url], Inr r)"
  by (subst retry_loop.simps) simp

lemma retry_loop_return:
  "attempt \<le> maxRetries \<Longrightarrow> attempt_body env url args attempt = Inl c \<Longrightarrow>
   catch_handler c attempt = Inr (Return r) \<Longrightarrow>
   retry_loop env url args attempt lastError = ([Fetch url], Inr r)"
  by (subst retry_loop.simps) simp

lemma retry_loop_throw:
  "attempt \<le> maxRetries \<Longrightarrow> attempt_body env url args attempt = Inl c \<Longrightarrow>
   catch_handler c attempt = Inl t \<Longrightarrow>
   retry_loop env url args attempt lastError = ([Fetch url], Inl t)"
  by (subst retry_loop.simps) simp

lemma retry_loop_continue:
  "attempt \<le> maxRetries \<Longrightarrow> attempt_body env url args attempt = Inl c \<Longrightarrow>
   catch_handler c attempt = Inr (Continue d) \<Longrightarrow>
   retry_loop env url args attempt lastError =
     (Fetch url # Sleep d # fst (retry_loop env url args (attempt + 1) c),
      snd (retry_loop env url args (attempt + 1) c))"
  by (subst retry_loop.simps) (simp add: case_prod_beta)

lemma retry_loop_lastError:
  "attempt \<le> maxRetries \<Longrightarrow>
   retry_loop env url args attempt lastError = retry_loop env url args attempt lastError'"
  by (subst retry_loop.simps, subst (2) retry_loop.simps) simp

lemma backoff_events_same: "backoff_events url k k = []"
  by (simp add: backoff_events_def)

lemma backoff_events_step:
  "n < k \<Longrightarrow> backoff_events url n k = Fetch url # Sleep (2 ^ (n - 1) * 1000) # backoff_events url (Suc n) k"
  by (simp add: backoff_events_def upt_conv_Cons)

lemma backoff_events_last:
  "n \<le> k \<Longrightarrow> backoff_events url n (Suc k) = backoff_events url n k @ [Fetch url, Sleep (2 ^ (k - 1) * 1000)]"
  by (simp add: backoff_events_def)

lemma retried_cases:
  "retried env url args j \<longleftrightarrow> (\<exists>e. attempt_body env url args j = Inl (Some e) \<and> transient e)"
  by (auto simp: retried_def split: sum.splits option.splits)

lemma retry_loop_prefix:
  "attempt \<le> k \<Longrightarrow> k \<le> maxRetries \<Longrightarrow> list_all (retried env url args) [attempt..<k] \<Longrightarrow>
   retry_loop env url args attempt lastError =
     (backoff_events url attempt k @ fst (retry_loop env url args k lastError),
      snd (retry_loop env url args k lastError))"
proof (induction env url args attempt lastError rule: retry_loop.induct)
  case (1 env url args attempt lastError)
  show ?case
  proof (cases "attempt = k")
    case True
    then show ?thesis by (simp add: backoff_events_same)
  next
    case False
    with "1.prems" have lt: "attempt < k" by simp
    with "1.prems" have le: "attempt \<le> maxRetries" and lt': "attempt < maxRetries" by simp_all
    from lt "1.prems" have r: "retried env url args attempt"
      and rest: "list_all (retried env url args) [attempt + 1..<k]"
      by (simp_all add: upt_conv_Cons)
    from r obtain e where e: "attempt_body env url args attempt = Inl (Some e)" "transient e"
      by (auto simp: retried_cases)
    have c: "catch_handler (Some e) attempt = Inr (Continue (2 ^ (attempt - 1) * 1000))"
      using e(2) lt' by (rule catch_handler_transient)
    have ih: "retry_loop env url args (attempt + 1) (Some e) =
        (backoff_events url (attempt + 1) k @ fst (retry_loop env url args k (Some e)),
         snd (retry_loop env url args k (Some e)))"
      using "1.IH" [OF le e(1) c refl] lt "1.prems"(2) rest by simp
    have same: "retry_loop env url args k (Some e) = retry_loop env url args k lastError"
      using "1.prems"(2) by (rule retry_loop_lastError)
    show ?thesis
      using retry_loop_continue [OF le e(1) c, of lastError] ih same lt
      by (simp add: backoff_events_step)
  qed
qed

lemma retry_loop_starts_with_fetch:
  "attempt \<le> maxRetries \<Longrightarrow> \<exists>rest. fst (retry_loop env url args attempt lastError) = Fetch url # rest"
  by (subst retry_loop.simps) (auto split: sum.splits loop_step.splits prod.splits)

text \<open>What one turn of the loop can do, as a rule for case analysis.\<close>

lemma retry_loop_turn:
  assumes "attempt \<le> maxRetries"
  obtains (finished) r where "attempt_body env url args attempt = Inr r"
      "retry_loop env url args attempt lastError = ([Fetch url], Inr r)"
  | (throws) "attempt_body env url args attempt = Inl None"
      "retry_loop env url args attempt lastError = ([Fetch url], Inl TypeError)"
  | (returns) e r where "attempt_body env url args attempt = Inl (Some e)"
      "catch_handler (Some e) attempt = Inr (Return r)"
      "retry_loop env url args attempt lastError = ([Fetch url], Inr r)"
  | (continues) e d where "attempt_body env url args attempt = Inl (Some e)"
      "catch_handler (Some e) attempt = Inr (Continue d)"
      "retry_loop env url args attempt lastError =
         (Fetch url # Sleep d # fst (retry_loop env url args (attempt + 1) (Some e)),
          snd (retry_loop env url args (attempt + 1) (Some e)))"
proof (cases "attempt_body env url args attempt")
  case (Inr r)
  with assms finished show ?thesis by (simp add: retry_loop_done)
next
  case (Inl c)
  show ?thesis
  proof (cases c)
    case None
    with Inl assms throws show ?thesis
      by (simp add: retry_loop_throw [OF assms _ catch_handler_nullish])
  next
    case (Some e)
    show ?thesis
    proof (cases "catch_handler (Some e) attempt")
      case l: (Inl t)
      from catch_handler_throws [OF l] show ?thesis by simp
    next
      case r: (Inr step)
      show ?thesis
      proof (cases step)
        case (Continue d)
        with Inl Some r assms continues show ?thesis
          by (simp add: retry_loop_continue)
      next
        case (Return res)
        with Inl Some r assms returns show ?thesis
          by (simp add: retry_loop_return)
      qed
    qed
  qed
qed

lemma fetch_count_retry_loop:
  "fetch_count (fst (retry_loop env url args attempt lastError)) \<le> maxRetries + 1 - attempt"
proof (induction env url args attempt lastError rule: retry_loop.induct)
  case (1 env url args attempt lastError)
  show ?case
  proof (cases "attempt \<le> maxRetries")
    case False
    then show ?thesis by (subst retry_loop.simps) (simp add: fetch_count_def)
  next
    case le: True
    then show ?thesis
    proof (cases rule: retry_loop_turn [of attempt env url args lastError])
      case (finished r)
      then show ?thesis using le by (simp add: fetch_count_def)
    next
      case throws
      then show ?thesis using le by (simp add: fetch_count_def)
    next
      case (returns e r)
      then show ?thesis using le by (simp add: fetch_count_def)
    next
      case (continues e d)
      from "1.IH" [OF le continues(1,2) refl]
      have "fetch_count (fst (retry_loop env url args (attempt + 1) (Some e))) \<le> maxRetries - attempt"
        by simp
      with le show ?thesis
        by (simp add: continues(3) fetch_count_def)
    qed
  qed
qed

lemma fetch_url_retry_loop:
  "Fetch u \<in> set (fst (retry_loop env url args attempt lastError)) \<Longrightarrow> u = url"
proof (induction env url args attempt lastError rule: retry_loop.induct)
  case (1 env url args attempt lastError)
  show ?case
  proof (cases "attempt \<le> maxRetries")
    case False
    with "1.prems" show ?thesis by (subst (asm) retry_loop.simps) simp
  next
    case le: True
    then show ?thesis
    proof (cases rule: retry_loop_turn [of attempt env url args lastError])
      case (finished r)
      with "1.prems" show ?thesis by simp
    next
      case throws
      with "1.prems" show ?thesis by simp
    next
      case (returns e r)
      with "1.prems" show ?thesis by simp
    next
      case (continues e d)
      with "1.prems" "1.IH" [OF le continues(1,2) refl] show ?thesis
        by auto
    qed
  qed
qed

lemma execute_configured:
  "configured env \<Longrightarrow> execute env args = retry_loop env (url_of env args) args 1 None"
  by (simp add: execute_def configured_def url_of_def Let_def)

lemma execute_not_configured:
  "\<not> configured env \<Longrightarrow>
   execute env args = ([], Inr (error_result ''Adzuna API credentials are not configured. Please add ADZUNA_APP_ID and ADZUNA_APP_KEY to your environment variables.''))"
  by (auto simp add: execute_def configured_def Let_def)

lemma fetch_count_append: "fetch_count (xs @ ys) = fetch_count xs + fetch_count ys"
  by (simp add: fetch_count_def)

lemma fetch_count_backoff: "fetch_count (backoff_events url n k) = k - n"
proof (induction k)
  case 0
  then show ?case by (simp add: backoff_events_def fetch_count_def)
next
  case (Suc k)
  show ?case
  proof (cases "n \<le> k")
    case True
    with Suc show ?thesis
      by (simp add: backoff_events_last fetch_count_append) (simp add: fetch_count_def)
  next
    case False
    then show ?thesis by (simp add: backoff_events_def fetch_count_def)
  qed
qed

lemma upt_1_2: "[Suc 0..<2] = [Suc 0]"
  by (simp add: numeral_2_eq_2 upt_conv_Cons)

lemma upt_1_3: "[Suc 0..<3] = [Suc 0, 2]"
  by (simp add: numeral_3_eq_3 numeral_2_eq_2 upt_conv_Cons)

lemma sample_env_configured: "configured (sample_env f)"
  by (simp add: configured_def sample_env_def truthy_str_def)

lemma sample_env_fetch: "fetch (sample_env f) u n = f n"
  by (simp add: sample_env_def)

lemma transient_abort_error: "transient abort_error"
  by (simp add: transient_def is_timeout_def abort_error_def)

lemma transient_conn_reset_error: "transient conn_reset_error" "\<not> is_timeout conn_reset_error"
  "errorCode_of conn_reset_error = Some ''ECONNRESET''"
  by (simp_all add: transient_def is_timeout_def is_network_error_def retried_code_def
      errorCode_of_def truthy_str_def conn_reset_error_def)

lemma transient_timed_out_error: "transient timed_out_error"
  by (simp add: transient_def is_network_error_def retried_code_def timed_out_error_def)

subsection \<open>Retries\<close>

text \<open>Claim C3. Whenever attempt \<open>k\<close> is reached and fails with a timeout, or with a
  network error that carries one of the codes \<open>ETIMEDOUT\<close>, \<open>ECONNRESET\<close> and
  \<open>ECONNREFUSED\<close> on itself or on its cause, and \<open>k\<close> is less than \<open>maxRetries\<close>, the run
  goes on after the call of attempt \<open>k\<close> with a wait of \<open>2 ^ (k - 1) * 1000\<close>
  milliseconds and then the call of attempt \<open>k + 1\<close>. No run makes more than three
  network calls.\<close>

theorem transient_failure_is_retried:
  "fetch_count (fst (execute env args)) \<le> 3 \<and>
   (configured env \<and> 1 \<le> k \<and> k < maxRetries \<and> reached env (url_of env args) args k \<and>
    attempt_body env (url_of env args) args k = Inl (Some e) \<and>
    (err_name e = Some ''AbortError''
     \<or> retried_code (err_code e)
     \<or> ((err_code e = None \<or> err_code e = Some []) \<and> retried_code (err_cause_code e))) \<longrightarrow>
    (\<exists>rest. fst (execute env args) =
        backoff_events (url_of env args) 1 k
        @ Fetch (url_of env args) # Sleep (2 ^ (k - 1) * 1000) # Fetch (url_of env args) # rest))"
proof (intro conjI impI)
  show "fetch_count (fst (execute env args)) \<le> 3"
  proof (cases "configured env")
    case True
    then show ?thesis
      using fetch_count_retry_loop [of env "url_of env args" args 1 None]
      by (simp add: execute_configured maxRetries_def)
  next
    case False
    then show ?thesis by (simp add: execute_not_configured fetch_count_def)
  qed
next
  let ?u = "url_of env args"
  assume a: "configured env \<and> 1 \<le> k \<and> k < maxRetries \<and> reached env ?u args k \<and>
    attempt_body env ?u args k = Inl (Some e) \<and>
    (err_name e = Some ''AbortError''
     \<or> retried_code (err_code e)
     \<or> ((err_code e = None \<or> err_code e = Some []) \<and> retried_code (err_cause_code e)))"
  then have t: "transient e"
    by (auto simp: transient_def is_timeout_def is_network_error_def)
  with a have all: "list_all (retried env ?u args) [1..<Suc k]"
    by (simp add: reached_def retried_def)
  from a have k: "1 \<le> Suc k" "Suc k \<le> maxRetries" by simp_all
  obtain rest where rest: "fst (retry_loop env ?u args (Suc k) None) = Fetch ?u # rest"
    using retry_loop_starts_with_fetch [OF k(2)] by blast
  have "fst (execute env args) = backoff_events ?u 1 (Suc k) @ fst (retry_loop env ?u args (Suc k) None)"
    using a retry_loop_prefix [OF k all, of None] by (simp add: execute_configured)
  also have "\<dots> = backoff_events ?u 1 k @ Fetch ?u # Sleep (2 ^ (k - 1) * 1000) # Fetch ?u # rest"
    using a rest by (simp add: backoff_events_last)
  finally show "\<exists>rest. fst (execute env args) =
        backoff_events ?u 1 k @ Fetch ?u # Sleep (2 ^ (k - 1) * 1000) # Fetch ?u # rest"
    by blast
qed

text \<open>A connection reset that \<open>fetch\<close> reports on the cause of its error, then a
  connection timeout reported on the error itself, then a success; and two timeouts, then
  a success. In both runs waits of 1000 and of 2000 milliseconds stand before the second
  and the third call.\<close>

theorem transient_failure_is_retried_witness:
  "(\<exists>rest. fst (execute shaky_env (sample_args (Some ''Remote'') (Some (Finite 20)))) =
     Fetch (url_of shaky_env (sample_args (Some ''Remote'') (Some (Finite 20)))) # Sleep 1000
     # Fetch (url_of shaky_env (sample_args (Some ''Remote'') (Some (Finite 20)))) # Sleep 2000
     # Fetch (url_of shaky_env (sample_args (Some ''Remote'') (Some (Finite 20)))) # rest)
   \<and> (\<exists>rest. fst (execute flaky_env (sample_args (Some ''Remote'') (Some (Finite 20)))) =
     Fetch (url_of flaky_env (sample_args (Some ''Remote'') (Some (Finite 20)))) # Sleep 1000
     # Fetch (url_of flaky_env (sample_args (Some ''Remote'') (Some (Finite 20)))) # Sleep 2000
     # Fetch (url_of flaky_env (sample_args (Some ''Remote'') (Some (Finite 20)))) # rest)"
proof -
  let ?a = "sample_args (Some ''Remote'') (Some (Finite 20))"
  let ?u = "url_of shaky_env ?a"
  let ?v = "url_of flaky_env ?a"
  have c: "configured shaky_env" "configured flaky_env"
    by (simp_all add: shaky_env_def flaky_env_def sample_env_configured)
  have b: "attempt_body shaky_env ?u ?a 1 = Inl (Some conn_reset_error)"
    "attempt_body shaky_env ?u ?a 2 = Inl (Some timed_out_error)"
    by (simp_all add: attempt_body_def shaky_env_def sample_env_fetch)
  have r: "reached shaky_env ?u ?a 2"
    using b by (simp add: reached_def retried_def upt_1_2 transient_conn_reset_error)
  have d: "attempt_body flaky_env ?v ?a 1 = Inl (Some abort_error)"
    "attempt_body flaky_env ?v ?a 2 = Inl (Some abort_error)"
    by (simp_all add: attempt_body_def flaky_env_def sample_env_fetch)
  have s: "reached flaky_env ?v ?a 2"
    using d by (simp add: reached_def retried_def upt_1_2 transient_abort_error)
  have codes: "retried_code (err_code timed_out_error)" "err_name abort_error = Some ''AbortError''"
    by (simp_all add: retried_code_def timed_out_error_def abort_error_def)
  show ?thesis
    using transient_failure_is_retried [of shaky_env ?a 2 timed_out_error] c b r codes
      transient_failure_is_retried [of flaky_env ?a 2 abort_error] d s
    by (simp add: maxRetries_def backoff_events_def upt_1_2)
qed

subsection \<open>Failures that end the run\<close>

lemma attempt_body_bad_status:
  "fetch env url k = Resolves response \<Longrightarrow> \<not> ok response \<Longrightarrow>
   attempt_body env url args k =
     Inr (error_result (''Adzuna API returned error: '' @ toString (int (status response))
                        @ '' '' @ statusText response))"
  by (simp add: attempt_body_def)

text \<open>Claim C5. Whenever attempt \<open>k\<close> is reached and receives a response whose status is
  not a success status, the run ends with the call of attempt \<open>k\<close>: no wait and no further
  call follows, \<open>k\<close> calls were made in all, and \<open>execute\<close> returns a result tagged
  \<open>error\<close> with an error string that contains the numeric status and the status text.\<close>

theorem bad_status_stops_the_run:
  assumes "configured env" and "1 \<le> k" and "k \<le> maxRetries"
    and "reached env (url_of env args) args k"
    and "fetch env (url_of env args) k = Resolves response" and "\<not> ok response"
  shows "execute env args =
           (backoff_events (url_of env args) 1 k @ [Fetch (url_of env args)],
            Inr (error_result (''Adzuna API returned error: '' @ toString (int (status response))
                               @ '' '' @ statusText response)))
         \<and> fetch_count (fst (execute env args)) = k
         \<and> (\<exists>r. snd (execute env args) = Inr r
                \<and> res_action r = ''error''
                \<and> includes_str (the (res_error r)) (toString (int (status response)))
                \<and> includes_str (the (res_error r)) (statusText response))"
proof -
  let ?u = "url_of env args"
  let ?msg = "''Adzuna API returned error: '' @ toString (int (status response)) @ '' '' @ statusText response"
  have all: "list_all (retried env ?u args) [1..<k]"
    using assms(4) by (simp add: reached_def)
  have last: "retry_loop env ?u args k None = ([Fetch ?u], Inr (error_result ?msg))"
    using assms(3) attempt_body_bad_status [OF assms(5,6)] by (rule retry_loop_done)
  have run: "execute env args = (backoff_events ?u 1 k @ [Fetch ?u], Inr (error_result ?msg))"
    using retry_loop_prefix [OF assms(2,3) all, of None] last assms(1)
    by (simp add: execute_configured)
  have n: "fetch_count (backoff_events ?u 1 k @ [Fetch ?u]) = k"
    using assms(2) by (simp add: fetch_count_append fetch_count_backoff) (simp add: fetch_count_def)
  have i1: "includes_str ?msg (toString (int (status response)))"
    by (rule includes_str_middle)
  have i2: "includes_str ?msg (statusText response)"
    using includes_str_end [of "''Adzuna API returned error: '' @ toString (int (status response)) @ '' ''" "statusText response"]
    by simp
  show ?thesis
    using run n i1 i2 by (simp add: error_result_def)
qed

lemma busy_not_ok: "\<not> ok busy_response"
  by (simp add: ok_def busy_response_def)

text \<open>A 429 on the first attempt: one network call, and the status in the error string.\<close>

theorem bad_status_stops_the_run_witness:
  "execute busy_env (sample_args None None) =
     ([Fetch (url_of busy_env (sample_args None None))],
      Inr (error_result ''Adzuna API returned error: 429 Too Many Requests''))
   \<and> fetch_count (fst (execute busy_env (sample_args None None))) = 1"
proof -
  let ?a = "sample_args None None"
  have c: "configured busy_env"
    by (simp add: busy_env_def sample_env_configured)
  have r: "reached busy_env (url_of busy_env ?a) ?a 1"
    by (simp add: reached_def)
  have f: "fetch busy_env (url_of busy_env ?a) 1 = Resolves busy_response"
    by (simp add: busy_env_def sample_env_fetch)
  have m: "(1::nat) \<le> maxRetries"
    by (simp add: maxRetries_def)
  have s: "toString (int (status busy_response)) = ''429''" "statusText busy_response = ''Too Many Requests''"
    by (simp_all add: busy_response_def toString_def nat_digits.simps digit_char_def)
  show ?thesis
    using bad_status_stops_the_run [OF c order_refl m r f busy_not_ok] s
    by (simp add: backoff_events_same fetch_count_def)
qed

text \<open>Claim C6. If either credential is missing from the environment (or is the empty
  string), the run makes no network call and \<open>execute\<close> returns at once a result tagged
  \<open>error\<close>, with an empty job list and an error string that names \<open>ADZUNA_APP_ID\<close> and
  \<open>ADZUNA_APP_KEY\<close>.\<close>

theorem missing_credentials_give_error:
  assumes "ADZUNA_APP_ID env = None \<or> ADZUNA_APP_ID env = Some []
           \<or> ADZUNA_APP_KEY env = None \<or> ADZUNA_APP_KEY env = Some []"
  shows "fst (execute env args) = []
         \<and> (\<exists>r. snd (execute env args) = Inr r
                \<and> res_action r = ''error''
                \<and> res_jobs r = []
                \<and> (\<exists>msg. res_error r = Some msg
                       \<and> includes_str msg ''ADZUNA_APP_ID'' \<and> includes_str msg ''ADZUNA_APP_KEY''))"
proof -
  from assms have "\<not> configured env"
    by (auto simp: configured_def truthy_str_def)
  then show ?thesis
    by (simp add: execute_not_configured error_result_def)
qed

text \<open>The application key is missing.\<close>

theorem missing_credentials_give_error_witness:
  "fst (execute (ok_env\<lparr>ADZUNA_APP_KEY := None\<rparr>) (sample_args None None)) = []
   \<and> (\<exists>r. snd (execute (ok_env\<lparr>ADZUNA_APP_KEY := None\<rparr>) (sample_args None None)) = Inr r
          \<and> res_action r = ''error'' \<and> res_jobs r = [])"
  using missing_credentials_give_error [of "ok_env\<lparr>ADZUNA_APP_KEY := None\<rparr>" "sample_args None None"]
  by auto

subsection \<open>Failure on the last attempt\<close>

lemma final_attempt_run:
  assumes "configured env" and "reached env (url_of env args) args maxRetries"
    and "attempt_body env (url_of env args) args maxRetries = Inl (Some e)" and "transient e"
  shows "execute env args =
           (backoff_events (url_of env args) 1 maxRetries @ [Fetch (url_of env args)],
            Inr (error_result
              (if is_timeout e
               then ''Adzuna API request timed out after '' @ toString (int maxRetries) @ '' attempts''
               else ''Network error connecting to Adzuna: '' @ the (errorCode_of e))))"
proof -
  let ?u = "url_of env args"
  let ?msg = "if is_timeout e
               then ''Adzuna API request timed out after '' @ toString (int maxRetries) @ '' attempts''
               else ''Network error connecting to Adzuna: '' @ the (errorCode_of e)"
  have one: "1 \<le> maxRetries"
    by (simp add: maxRetries_def)
  have all: "list_all (retried env ?u args) [1..<maxRetries]"
    using assms(2) by (simp add: reached_def)
  have h: "catch_handler (Some e) maxRetries = Inr (Return (error_result ?msg))"
    using assms(4) catch_handler_timeout_last [of e maxRetries]
      catch_handler_network_last [of e maxRetries]
    by (auto simp: transient_def)
  have last: "retry_loop env ?u args maxRetries None = ([Fetch ?u], Inr (error_result ?msg))"
    using order_refl assms(3) h by (rule retry_loop_return)
  show ?thesis
    using retry_loop_prefix [OF one order_refl all, of None] last assms(1)
    by (simp add: execute_configured)
qed

text \<open>Claim C4, as the code has it. When the last attempt (attempt \<open>maxRetries\<close>) is
  reached and fails with a timeout or a retried network error, three calls were made and
  \<open>execute\<close> returns a result tagged \<open>error\<close> with an empty job list. After a timeout
  the error string is \<open>Adzuna API request timed out after 3 attempts\<close>, which contains the
  number of attempts; after a network error it is \<open>Network error connecting to Adzuna: \<close>
  followed by the error code, one of the three retried codes, and says nothing of the
  attempts.\<close>

theorem final_attempt_failure_message:
  assumes "configured env" and "reached env (url_of env args) args maxRetries"
    and "attempt_body env (url_of env args) args maxRetries = Inl (Some e)" and "transient e"
  shows "fetch_count (fst (execute env args)) = maxRetries
         \<and> (\<exists>r. snd (execute env args) = Inr r
                \<and> res_action r = ''error''
                \<and> res_jobs r = []
                \<and> res_error r =
                    Some (if is_timeout e
                          then ''Adzuna API request timed out after '' @ toString (int maxRetries) @ '' attempts''
                          else ''Network error connecting to Adzuna: '' @ the (errorCode_of e))
                \<and> (if is_timeout e
                   then includes_str (the (res_error r)) (toString (int maxRetries))
                   else errorCode_of e = Some ''ETIMEDOUT'' \<or> errorCode_of e = Some ''ECONNRESET''
                        \<or> errorCode_of e = Some ''ECONNREFUSED''))"
proof -
  have n: "fetch_count (backoff_events (url_of env args) 1 maxRetries @ [Fetch (url_of env args)]) = maxRetries"
    by (simp add: fetch_count_append fetch_count_backoff) (simp add: fetch_count_def maxRetries_def)
  have i: "includes_str (''Adzuna API request timed out after '' @ toString (int maxRetries) @ '' attempts'')
             (toString (int maxRetries))"
    by (rule includes_str_middle)
  have c: "\<not> is_timeout e \<Longrightarrow> retried_code (errorCode_of e)"
    using assms(4) by (simp add: transient_def is_network_error_errorCode_of)
  show ?thesis
    using final_attempt_run [OF assms] n i c
    by (auto simp: error_result_def retried_code_def)
qed

lemma toString_3: "toString 3 = ''3''"
  by (simp add: toString_def nat_digits.simps digit_char_def)

lemma hung_env_run:
  "configured hung_env"
  "reached hung_env u a maxRetries"
  "attempt_body hung_env u a maxRetries = Inl (Some abort_error)"
  by (simp_all add: hung_env_def sample_env_configured reached_def retried_def attempt_body_def
      sample_env_fetch transient_abort_error maxRetries_def upt_1_3)

lemma reset_env_run:
  "configured reset_env"
  "reached reset_env u a maxRetries"
  "attempt_body reset_env u a maxRetries = Inl (Some conn_reset_error)"
  by (simp_all add: reset_env_def sample_env_configured reached_def retried_def attempt_body_def
      sample_env_fetch transient_conn_reset_error maxRetries_def upt_1_3)

text \<open>Three timeouts, and three connection resets.\<close>

theorem final_attempt_failure_message_witness:
  "fetch_count (fst (execute hung_env (sample_args None None))) = 3
   \<and> (\<exists>r. snd (execute hung_env (sample_args None None)) = Inr r
          \<and> res_action r = ''error''
          \<and> res_error r = Some ''Adzuna API request timed out after 3 attempts'')
   \<and> (\<exists>r. snd (execute reset_env (sample_args None None)) = Inr r
          \<and> res_error r = Some ''Network error connecting to Adzuna: ECONNRESET'')"
  using final_attempt_failure_message [OF hung_env_run transient_abort_error, of "sample_args None None"]
    final_attempt_failure_message [OF reset_env_run transient_conn_reset_error(1), of "sample_args None None"]
    transient_conn_reset_error(2,3)
  by (auto simp: toString_3 is_timeout_def abort_error_def maxRetries_def)

text \<open>Claim C4 as stated fails for the network error: after three connection resets the
  error string does not contain the number of attempts made.\<close>

theorem network_message_lacks_attempt_count:
  "transient conn_reset_error
   \<and> attempt_body reset_env (url_of reset_env (sample_args None None)) (sample_args None None) maxRetries
       = Inl (Some conn_reset_error)
   \<and> fetch_count (fst (execute reset_env (sample_args None None))) = 3
   \<and> snd (execute reset_env (sample_args None None)) =
       Inr (error_result ''Network error connecting to Adzuna: ECONNRESET'')
   \<and> res_error (error_result ''Network error connecting to Adzuna: ECONNRESET'') =
       Some ''Network error connecting to Adzuna: ECONNRESET''
   \<and> \<not> includes_str ''Network error connecting to Adzuna: ECONNRESET'' (toString 3)"
proof -
  have n: "fetch_count (backoff_events u 1 maxRetries @ [Fetch u]) = 3" for u
    by (simp add: fetch_count_append fetch_count_backoff) (simp add: fetch_count_def maxRetries_def)
  show ?thesis
    using final_attempt_run [OF reset_env_run transient_conn_reset_error(1), of "sample_args None None"]
      n transient_conn_reset_error reset_env_run(3)
    by (simp add: error_result_def toString_3)
qed

subsection \<open>How a run ends\<close>

lemma attempt_body_Inr:
  "attempt_body env url args k = Inr r \<Longrightarrow>
   (attempt_succeeds env url k \<and> res_action r = ''display'' \<and> res_count r = Some (length (res_jobs r)))
   \<or> (\<not> attempt_succeeds env url k \<and> res_action r = ''error'' \<and> res_jobs r = []
       \<and> (\<exists>msg. res_error r = Some msg \<and> msg \<noteq> []))"
  by (auto simp: attempt_body_def attempt_succeeds_def display_result_def error_result_def
      split: fetch_outcome.splits if_splits sum.splits)

lemma attempt_body_Inl:
  "attempt_body env url args k = Inl c \<Longrightarrow> \<not> attempt_succeeds env url k"
  by (auto simp: attempt_body_def attempt_succeeds_def
      split: fetch_outcome.splits if_splits sum.splits)

text \<open>The first attempt from \<open>n\<close> on that is reached and has a property \<open>P\<close> is attempt
  \<open>n\<close> itself, or a later one when attempt \<open>n\<close> is retried.\<close>

lemma first_reached:
  assumes "n \<le> m"
  shows "(\<exists>k. n \<le> k \<and> k \<le> m \<and> list_all Q [n..<k] \<and> P k) \<longleftrightarrow>
         P n \<or> (Q n \<and> (\<exists>k. n + 1 \<le> k \<and> k \<le> m \<and> list_all Q [n + 1..<k] \<and> P k))"
proof
  assume "\<exists>k. n \<le> k \<and> k \<le> m \<and> list_all Q [n..<k] \<and> P k"
  then obtain k where k: "n \<le> k" "k \<le> m" "list_all Q [n..<k]" "P k"
    by blast
  show "P n \<or> (Q n \<and> (\<exists>k. n + 1 \<le> k \<and> k \<le> m \<and> list_all Q [n + 1..<k] \<and> P k))"
  proof (cases "k = n")
    case True
    with k show ?thesis by simp
  next
    case False
    with k have "n < k" by simp
    with k have "Q n" "list_all Q [n + 1..<k]"
      by (simp_all add: upt_conv_Cons)
    with k \<open>n < k\<close> show ?thesis by auto
  qed
next
  assume "P n \<or> (Q n \<and> (\<exists>k. n + 1 \<le> k \<and> k \<le> m \<and> list_all Q [n + 1..<k] \<and> P k))"
  then show "\<exists>k. n \<le> k \<and> k \<le> m \<and> list_all Q [n..<k] \<and> P k"
  proof
    assume "P n"
    with assms show ?thesis by (intro exI [of _ n]) simp
  next
    assume "Q n \<and> (\<exists>k. n + 1 \<le> k \<and> k \<le> m \<and> list_all Q [n + 1..<k] \<and> P k)"
    then obtain k where k: "n + 1 \<le> k" "k \<le> m" "list_all Q [n + 1..<k]" "P k" and q: "Q n"
      by blast
    then show ?thesis
      by (intro exI [of _ k]) (simp add: upt_conv_Cons)
  qed
qed

lemma no_later_attempt:
  "\<not> n < m \<Longrightarrow> \<not> (\<exists>k. n + 1 \<le> k \<and> k \<le> m \<and> list_all Q [n + 1..<k] \<and> P k)"
  by auto

lemma retry_loop_display:
  "(\<exists>r. snd (retry_loop env url args attempt lastError) = Inr r \<and> res_action r = ''display'') \<longleftrightarrow>
   (\<exists>k. attempt \<le> k \<and> k \<le> maxRetries \<and> list_all (retried env url args) [attempt..<k]
        \<and> attempt_succeeds env url k)"
proof (induction env url args attempt lastError rule: retry_loop.induct)
  case (1 env url args attempt lastError)
  show ?case
  proof (cases "attempt \<le> maxRetries")
    case False
    then have "snd (retry_loop env url args attempt lastError) =
        Inr (error_result (case lastError of
                          Some e \<Rightarrow> if err_instanceof_Error e then err_message e
                                    else ''Failed to fetch jobs from Adzuna after multiple retries''
                        | None \<Rightarrow> ''Failed to fetch jobs from Adzuna after multiple retries''))"
      by (subst retry_loop.simps) simp
    with False show ?thesis by (auto simp: error_result_def)
  next
    case le: True
    note split = first_reached [OF le, of "retried env url args" "attempt_succeeds env url"]
    from le show ?thesis
    proof (cases rule: retry_loop_turn [of attempt env url args lastError])
      case (finished r)
      then have "\<not> retried env url args attempt" by (simp add: retried_def)
      with finished attempt_body_Inr [OF finished(1)] show ?thesis
        by (auto simp: split)
    next
      case throws
      then have "\<not> retried env url args attempt" by (simp add: retried_def)
      with throws attempt_body_Inl [OF throws(1)] show ?thesis
        by (simp add: split)
    next
      case (returns e r)
      from catch_handler_Return [OF returns(2)] have r: "res_action r = ''error''"
        and last: "transient e \<longrightarrow> \<not> attempt < maxRetries"
        by auto
      have "retried env url args attempt \<longleftrightarrow> transient e"
        using returns(1) by (simp add: retried_def)
      with last no_later_attempt [of attempt maxRetries]
      have "\<not> (retried env url args attempt \<and>
          (\<exists>k. attempt + 1 \<le> k \<and> k \<le> maxRetries \<and> list_all (retried env url args) [attempt + 1..<k]
               \<and> attempt_succeeds env url k))"
        by blast
      with returns(3) r attempt_body_Inl [OF returns(1)] show ?thesis
        by (simp add: split)
    next
      case (continues e d)
      from catch_handler_Continue [OF continues(2)] continues(1)
      have "retried env url args attempt" by (simp add: retried_def)
      with "1.IH" [OF le continues(1,2) refl] attempt_body_Inl [OF continues(1)] show ?thesis
        by (simp add: continues(3) split)
    qed
  qed
qed

lemma retry_loop_throws_iff:
  "snd (retry_loop env url args attempt lastError) = Inl TypeError \<longleftrightarrow>
   (\<exists>k. attempt \<le> k \<and> k \<le> maxRetries \<and> list_all (retried env url args) [attempt..<k]
        \<and> attempt_body env url args k = Inl None)"
proof (induction env url args attempt lastError rule: retry_loop.induct)
  case (1 env url args attempt lastError)
  show ?case
  proof (cases "attempt \<le> maxRetries")
    case False
    then have "\<exists>r. snd (retry_loop env url args attempt lastError) = Inr r"
      by (subst retry_loop.simps) simp
    with False show ?thesis by auto
  next
    case le: True
    note split = first_reached [OF le, of "retried env url args" "\<lambda>k. attempt_body env url args k = Inl None"]
    from le show ?thesis
    proof (cases rule: retry_loop_turn [of attempt env url args lastError])
      case (finished r)
      then have "\<not> retried env url args attempt" by (simp add: retried_def)
      with finished show ?thesis
        by (simp add: split)
    next
      case throws
      then show ?thesis
        by (simp add: split)
    next
      case (returns e r)
      from catch_handler_Return [OF returns(2)]
      have last: "transient e \<longrightarrow> \<not> attempt < maxRetries"
        by auto
      have "retried env url args attempt \<longleftrightarrow> transient e"
        using returns(1) by (simp add: retried_def)
      with last no_later_attempt [of attempt maxRetries]
      have "\<not> (retried env url args attempt \<and>
          (\<exists>k. attempt + 1 \<le> k \<and> k \<le> maxRetries \<and> list_all (retried env url args) [attempt + 1..<k]
               \<and> attempt_body env url args k = Inl None))"
        by blast
      with returns(1,3) show ?thesis
        by (simp add: split)
    next
      case (continues e d)
      from catch_handler_Continue [OF continues(2)] continues(1)
      have "retried env url args attempt" by (simp add: retried_def)
      with "1.IH" [OF le continues(1,2) refl] continues(1) show ?thesis
        by (simp add: continues(3) split)
    qed
  qed
qed

lemma retry_loop_action:
  "snd (retry_loop env url args attempt lastError) = Inr r \<Longrightarrow>
   res_action r = ''display'' \<or> res_action r = ''error''"
proof (induction env url args attempt lastError rule: retry_loop.induct)
  case (1 env url args attempt lastError)
  show ?case
  proof (cases "attempt \<le> maxRetries")
    case False
    with "1.prems" show ?thesis
      by (subst (asm) retry_loop.simps) (auto simp: error_result_def)
  next
    case le: True
    then show ?thesis
    proof (cases rule: retry_loop_turn [of attempt env url args lastError])
      case (finished r')
      with "1.prems" attempt_body_Inr [OF finished(1)] show ?thesis by auto
    next
      case throws
      with "1.prems" show ?thesis by simp
    next
      case (returns e r')
      with "1.prems" catch_handler_Return [OF returns(2)] show ?thesis by auto
    next
      case (continues e d)
      with "1.prems" "1.IH" [OF le continues(1,2) refl] show ?thesis by simp
    qed
  qed
qed

text \<open>When \<open>execute\<close> throws, and what it returns when it does not. It throws exactly
  when the credentials are set and some attempt that is reached catches \<open>null\<close> or
  \<open>undefined\<close>. In every other run it returns a result tagged \<open>display\<close> or \<open>error\<close>,
  \<open>display\<close> exactly when some attempt that is reached gets a success status and a
  well-formed body.\<close>

lemma execute_throws_iff:
  "snd (execute env args) = Inl TypeError \<longleftrightarrow>
   configured env \<and>
   (\<exists>k. 1 \<le> k \<and> k \<le> maxRetries \<and> reached env (url_of env args) args k
        \<and> attempt_body env (url_of env args) args k = Inl None)"
proof (cases "configured env")
  case True
  then show ?thesis
    using retry_loop_throws_iff [of env "url_of env args" args 1 None]
    by (simp add: execute_configured reached_def)
next
  case False
  then show ?thesis
    by (simp add: execute_not_configured)
qed

lemma execute_returns_unless_nullish:
  assumes "\<forall>k. attempt_body env (url_of env args) args k \<noteq> Inl None"
  shows "\<exists>r. snd (execute env args) = Inr r
           \<and> (res_action r = ''display'' \<or> res_action r = ''error'')
           \<and> ((res_action r = ''display'') =
                (configured env \<and>
                 (\<exists>k. 1 \<le> k \<and> k \<le> maxRetries \<and> reached env (url_of env args) args k
                      \<and> attempt_succeeds env (url_of env args) k)))"
proof -
  from assms have "snd (execute env args) \<noteq> Inl TypeError"
    by (simp add: execute_throws_iff)
  then obtain r where r: "snd (execute env args) = Inr r"
    by (cases "snd (execute env args)") (auto intro: thrown.exhaust)
  show ?thesis
  proof (cases "configured env")
    case True
    with r show ?thesis
      using retry_loop_display [of env "url_of env args" args 1 None]
        retry_loop_action [of env "url_of env args" args 1 None r]
      by (auto simp: execute_configured reached_def)
  next
    case False
    with r show ?thesis
      by (auto simp: execute_not_configured error_result_def)
  qed
qed

text \<open>Claim C1 asks that \<open>execute\<close> never throws. The code does not meet it: when a call
  of \<open>fetch\<close> rejects with \<open>undefined\<close> (or \<open>null\<close>), the handler's unguarded read of
  \<open>error.code\<close> raises a \<open>TypeError\<close>, and it leaves \<open>execute\<close> after the one network
  call.\<close>

theorem nullish_rejection_escapes:
  "fetch undefined_env (url_of undefined_env (sample_args None None)) 1 = Rejects None
   \<and> execute undefined_env (sample_args None None) =
       ([Fetch (url_of undefined_env (sample_args None None))], Inl TypeError)"
proof -
  let ?a = "sample_args None None"
  have m: "(1::nat) \<le> maxRetries"
    by (simp add: maxRetries_def)
  have f: "fetch undefined_env (url_of undefined_env ?a) 1 = Rejects None"
    by (simp add: undefined_env_def sample_env_fetch)
  then have b: "attempt_body undefined_env (url_of undefined_env ?a) ?a 1 = Inl None"
    by (simp add: attempt_body_def)
  have "retry_loop undefined_env (url_of undefined_env ?a) ?a 1 None =
      ([Fetch (url_of undefined_env ?a)], Inl TypeError)"
    using m b catch_handler_nullish by (rule retry_loop_throw)
  with f show ?thesis
    by (simp add: execute_configured undefined_env_def sample_env_configured)
qed

text \<open>That run throws after exactly one network call.\<close>

theorem nullish_rejection_escapes_witness:
  "snd (execute undefined_env (sample_args None None)) = Inl TypeError
   \<and> fetch_count (fst (execute undefined_env (sample_args None None))) = 1"
  using nullish_rejection_escapes by (simp add: fetch_count_def)

subsection \<open>The shape of the result\<close>

lemma retry_loop_shape:
  "attempt \<le> maxRetries \<Longrightarrow> snd (retry_loop env url args attempt lastError) = Inr r \<Longrightarrow>
   (res_action r = ''display'' \<and> res_count r = Some (length (res_jobs r)))
   \<or> (res_action r = ''error'' \<and> res_jobs r = []
       \<and> (\<exists>msg. res_error r = Some msg
              \<and> (msg \<noteq> [] \<or>
                  (\<exists>k e. attempt \<le> k \<and> k \<le> maxRetries
                     \<and> list_all (retried env url args) [attempt..<k]
                     \<and> attempt_body env url args k = Inl (Some e) \<and> \<not> transient e
                     \<and> err_instanceof_Error e \<and> err_message e = []))))"
proof (induction env url args attempt lastError rule: retry_loop.induct)
  case (1 env url args attempt lastError)
  note le = "1.prems"(1)
  from le show ?case
  proof (cases rule: retry_loop_turn [of attempt env url args lastError])
    case (finished r')
    with "1.prems"(2) attempt_body_Inr [OF finished(1)] show ?thesis
      by auto
  next
    case throws
    with "1.prems"(2) show ?thesis by simp
  next
    case (returns e r')
    with "1.prems"(2) have rr: "r' = r" by simp
    from catch_handler_Return [OF returns(2)] rr obtain msg where msg: "res_error r = Some msg"
      "msg = [] \<longrightarrow> \<not> transient e \<and> err_instanceof_Error e \<and> err_message e = []"
      and r: "res_action r = ''error''" "res_jobs r = []"
      by auto
    have "msg \<noteq> [] \<or>
                (\<exists>k e. attempt \<le> k \<and> k \<le> maxRetries
                   \<and> list_all (retried env url args) [attempt..<k]
                   \<and> attempt_body env url args k = Inl (Some e) \<and> \<not> transient e
                   \<and> err_instanceof_Error e \<and> err_message e = [])"
    proof (cases "msg = []")
      case True
      with msg le returns(1) have "attempt \<le> attempt \<and> attempt \<le> maxRetries
                   \<and> list_all (retried env url args) [attempt..<attempt]
                   \<and> attempt_body env url args attempt = Inl (Some e) \<and> \<not> transient e
                   \<and> err_instanceof_Error e \<and> err_message e = []"
        by simp
      then show ?thesis by blast
    next
      case False
      then show ?thesis by simp
    qed
    with msg(1) r show ?thesis by simp
  next
    case (continues e d)
    from catch_handler_Continue [OF continues(2)] have t: "transient e" and lt: "attempt < maxRetries"
      by simp_all
    have ret: "retried env url args attempt"
      using continues(1) t by (simp add: retried_def)
    have ext: "attempt \<le> k \<and> list_all (retried env url args) [attempt..<k]"
      if "attempt + 1 \<le> k" "list_all (retried env url args) [attempt + 1..<k]" for k
      using that ret by (simp add: upt_conv_Cons)
    from lt have le': "attempt + 1 \<le> maxRetries" by simp
    from "1.prems"(2) have res: "snd (retry_loop env url args (attempt + 1) (Some e)) = Inr r"
      by (simp add: continues(3))
    from "1.IH" [OF le continues(1,2) refl le' res] show ?thesis
      using ext by (elim disjE conjE exE) (simp, simp, blast)
  qed
qed

text \<open>Claim C2, as the code has it. A result that \<open>execute\<close> returns with the tag
  \<open>error\<close> has an empty job list and an error string; the error string is non-empty,
  except when it is the message of an exception that the handler neither retries nor
  rewords: some attempt that is reached throws an \<open>Error\<close> that is not a timeout and
  carries none of the retried codes, and whose message is empty. A result returned with
  the tag \<open>display\<close> has \<open>count\<close> equal to the length of its job list.\<close>

theorem result_invariant:
  "snd (execute env args) = Inr r \<longrightarrow>
   (res_action r = ''error'' \<longrightarrow>
      res_jobs r = []
      \<and> (\<exists>msg. res_error r = Some msg
             \<and> (msg = [] \<longrightarrow>
                 (\<exists>k e. 1 \<le> k \<and> k \<le> maxRetries \<and> reached env (url_of env args) args k
                    \<and> attempt_body env (url_of env args) args k = Inl (Some e) \<and> \<not> transient e
                    \<and> err_instanceof_Error e \<and> err_message e = []))))
   \<and> (res_action r = ''display'' \<longrightarrow> res_count r = Some (length (res_jobs r)))"
proof (cases "configured env")
  case True
  have "(1::nat) \<le> maxRetries" by (simp add: maxRetries_def)
  from retry_loop_shape [OF this, of env "url_of env args" args None r] True show ?thesis
    by (auto simp: execute_configured reached_def)
next
  case False
  then show ?thesis
    by (auto simp: execute_not_configured error_result_def)
qed

lemma ok_env_run:
  "configured ok_env"
  "reached ok_env u a 1"
  "attempt_succeeds ok_env u 1"
  by (simp_all add: ok_env_def sample_env_configured reached_def attempt_succeeds_def
      sample_env_fetch ok_def ok_response_def)

lemma blank_env_run:
  "configured blank_env"
  "attempt_body blank_env u a 1 = Inl (Some blank_error)"
  "\<not> transient blank_error"
  by (simp_all add: blank_env_def sample_env_configured attempt_body_def sample_env_fetch
      transient_def is_timeout_def is_network_error_def retried_code_def blank_error_def)

lemma blank_env_result:
  "execute blank_env a = ([Fetch (url_of blank_env a)], Inr (error_result []))"
proof -
  have "(1::nat) \<le> maxRetries" by (simp add: maxRetries_def)
  moreover have "catch_handler (Some blank_error) 1 = Inr (Return (error_result []))"
    using catch_handler_other [OF blank_env_run(3), of 1] by (simp add: blank_error_def)
  ultimately have "retry_loop blank_env (url_of blank_env a) a 1 None =
      ([Fetch (url_of blank_env a)], Inr (error_result []))"
    using blank_env_run(2) by (intro retry_loop_return) auto
  then show ?thesis
    by (simp add: execute_configured blank_env_run(1))
qed

lemma ok_env_result:
  "execute ok_env a =
     ([Fetch (url_of ok_env a)],
      Inr (display_result a [mapAdzunaJobToJob whole_toLocaleString ''job-0'' ''2025-01-01T00:00:00.000Z''
                               (sample_job (Some (Finite 80000)) (Some (Finite 120000)))]))"
proof -
  have "(1::nat) \<le> maxRetries" by (simp add: maxRetries_def)
  moreover have "attempt_body ok_env (url_of ok_env a) a 1 =
      Inr (display_result a [mapAdzunaJobToJob whole_toLocaleString ''job-0'' ''2025-01-01T00:00:00.000Z''
                          (sample_job (Some (Finite 80000)) (Some (Finite 120000)))])"
    by (simp add: attempt_body_def ok_env_def sample_env_def ok_def ok_response_def
        toString_def nat_digits.simps digit_char_def)
  ultimately have "retry_loop ok_env (url_of ok_env a) a 1 None =
     ([Fetch (url_of ok_env a)],
      Inr (display_result a [mapAdzunaJobToJob whole_toLocaleString ''job-0'' ''2025-01-01T00:00:00.000Z''
                          (sample_job (Some (Finite 80000)) (Some (Finite 120000)))]))"
    by (rule retry_loop_done)
  then show ?thesis
    by (simp add: execute_configured ok_env_run(1))
qed

text \<open>A successful run, and a run of three timeouts.\<close>

theorem result_invariant_witness:
  "(\<exists>r. snd (execute ok_env (sample_args None None)) = Inr r
        \<and> res_action r = ''display''
        \<and> res_count r = Some (length (res_jobs r)))
   \<and> (\<exists>r. snd (execute hung_env (sample_args None None)) = Inr r
          \<and> res_action r = ''error''
          \<and> res_jobs r = []
          \<and> res_error r = Some ''Adzuna API request timed out after 3 attempts'')"
proof -
  let ?a = "sample_args None None"
  let ?d = "display_result ?a [mapAdzunaJobToJob whole_toLocaleString ''job-0'' ''2025-01-01T00:00:00.000Z''
                               (sample_job (Some (Finite 80000)) (Some (Finite 120000)))]"
  let ?e = "error_result ''Adzuna API request timed out after 3 attempts''"
  have d: "snd (execute ok_env ?a) = Inr ?d" "res_action ?d = ''display''"
    by (simp_all add: ok_env_result display_result_def)
  have e: "snd (execute hung_env ?a) = Inr ?e" "res_action ?e = ''error''"
    "res_error ?e = Some ''Adzuna API request timed out after 3 attempts''"
    using final_attempt_run [OF hung_env_run transient_abort_error, of ?a]
    by (simp_all add: is_timeout_def abort_error_def maxRetries_def toString_3 error_result_def)
  show ?thesis
    using result_invariant [of ok_env ?a ?d] result_invariant [of hung_env ?a ?e] d e
    by simp
qed

text \<open>Claim C2 as stated fails when the first call throws an \<open>Error\<close> with an empty
  message: the result is tagged \<open>error\<close> and its error string is empty.\<close>

theorem empty_message_passed_through:
  "attempt_body blank_env (url_of blank_env (sample_args None None)) (sample_args None None) 1
     = Inl (Some blank_error)
   \<and> err_instanceof_Error blank_error
   \<and> snd (execute blank_env (sample_args None None)) = Inr (error_result [])
   \<and> res_action (error_result []) = ''error''
   \<and> res_error (error_result []) = Some []"
  using blank_env_run(2) by (simp add: blank_env_result error_result_def blank_error_def)

subsection \<open>The request URL read back\<close>

lemma form_unreserved_safe: "form_unreserved c \<Longrightarrow> url_safe c"
  by (auto simp: form_unreserved_def url_safe_def)

lemma hex_digit_safe: "d < 16 \<Longrightarrow> url_safe (hex_digit d)"
proof -
  assume "d < 16"
  then have "hex_digit d \<in> set ''0123456789ABCDEF''"
    unfolding hex_digit_def by (intro nth_mem) simp
  then show ?thesis by (auto simp: url_safe_def)
qed

lemma urlencode_char_safe: "x \<in> set (urlencode_char c) \<Longrightarrow> url_safe x"
proof -
  assume x: "x \<in> set (urlencode_char c)"
  have "(of_char c :: nat) div 16 < 16"
    using nat_of_char_less_256 [of c] by (simp add: div_less_iff_less_mult)
  then have h1: "url_safe (hex_digit ((of_char c :: nat) div 16))"
    by (rule hex_digit_safe)
  have h2: "url_safe (hex_digit ((of_char c :: nat) mod 16))"
    by (rule hex_digit_safe) simp
  have p: "url_safe CHR ''%''" "url_safe CHR ''+''"
    by (simp_all add: url_safe_def)
  from x h1 h2 p form_unreserved_safe [of c] show ?thesis
    by (auto simp: urlencode_char_def split: if_splits)
qed

lemma urlencode_safe: "x \<in> set (urlencode s) \<Longrightarrow> url_safe x"
  by (auto simp: urlencode_def dest: urlencode_char_safe)

lemma urlencode_nonempty: "s \<noteq> [] \<Longrightarrow> urlencode s \<noteq> []"
  by (cases s) (auto simp: urlencode_def urlencode_char_def)

lemma split_on_absent: "c \<notin> set a \<Longrightarrow> split_on c a = [a]"
  by (induction a) auto

lemma split_on_append: "c \<notin> set a \<Longrightarrow> split_on c (a @ c # b) = a # split_on c b"
  by (induction a) auto

lemma split_pair_encoded: "split_pair (urlencode k @ CHR ''='' # urlencode v) = (urlencode k, urlencode v)"
proof -
  have "\<forall>x \<in> set (urlencode k). x \<noteq> CHR ''=''"
    using urlencode_safe [of _ k] by (auto simp: url_safe_def)
  then show ?thesis
    by (simp add: split_pair_def takeWhile_tail dropWhile_append3)
qed

lemma pair_has_no_ampersand: "CHR ''&'' \<notin> set (urlencode k @ CHR ''='' # urlencode v)"
  using urlencode_safe [of "CHR ''&''" k] urlencode_safe [of "CHR ''&''" v]
  by (auto simp: url_safe_def)

lemma params_toString_parsed:
  "ps \<noteq> [] \<Longrightarrow>
   map split_pair (split_on CHR ''&'' (params_toString ps)) =
   map (\<lambda>(k, v). (urlencode k, urlencode v)) ps"
proof (induction ps rule: params_toString.induct)
  case 1
  then show ?case by simp
next
  case (2 k v)
  show ?case
    using split_on_absent [OF pair_has_no_ampersand, of k v]
    by (simp add: split_pair_encoded)
next
  case (3 k v p ps)
  have "params_toString ((k, v) # p # ps) =
      (urlencode k @ CHR ''='' # urlencode v) @ CHR ''&'' # params_toString (p # ps)"
    by simp
  then show ?case
    using "3.IH" split_on_append [OF pair_has_no_ampersand, of k v "params_toString (p # ps)"]
    by (simp add: split_pair_encoded del: params_toString.simps)
qed

lemma url_query_baseUrl: "url_query (baseUrl @ ''?'' @ q) = q"
proof -
  have "\<forall>x \<in> set baseUrl. x \<noteq> CHR ''?''"
    by (simp add: baseUrl_def)
  then show ?thesis
    by (simp add: url_query_def dropWhile_append3)
qed

lemma urlencode_names:
  "urlencode ''app_id'' = ''app_id''" "urlencode ''app_key'' = ''app_key''"
  "urlencode ''results_per_page'' = ''results_per_page''" "urlencode ''what'' = ''what''"
  "urlencode ''where'' = ''where''"
  by (simp_all add: urlencode_def urlencode_char_def form_unreserved_def)

lemma url_params_request_url:
  "url_params (request_url numberToString appId apiKey args) =
     [(''app_id'', urlencode appId), (''app_key'', urlencode apiKey),
      (''results_per_page'',
       urlencode (numberToString (case resultsCount args of None \<Rightarrow> Finite 20 | Some n \<Rightarrow> n))),
      (''what'', urlencode (query args))]
     @ (if truthy_str (location args) then [(''where'', urlencode (the (location args)))] else [])"
  unfolding url_params_def request_url_def Let_def url_query_baseUrl
  by (subst params_toString_parsed)
     (simp_all add: params_append_def urlencode_names)

subsection \<open>The page size\<close>

lemma fetch_url_execute:
  "Fetch u \<in> set (fst (execute env args)) \<Longrightarrow> configured env \<and> u = url_of env args"
proof (cases "configured env")
  case True
  assume "Fetch u \<in> set (fst (execute env args))"
  with True show ?thesis
    using fetch_url_retry_loop [of u env "url_of env args" args 1 None]
    by (simp add: execute_configured)
next
  case False
  assume "Fetch u \<in> set (fst (execute env args))"
  with False show ?thesis by (simp add: execute_not_configured)
qed

lemma url_params_url_of:
  "url_params (url_of env args) =
     [(''app_id'', urlencode (the (ADZUNA_APP_ID env))), (''app_key'', urlencode (the (ADZUNA_APP_KEY env))),
      (''results_per_page'',
       urlencode (Number_toString env (case resultsCount args of None \<Rightarrow> Finite 20 | Some n \<Rightarrow> n))),
      (''what'', urlencode (query args))]
     @ (if truthy_str (location args) then [(''where'', urlencode (the (location args)))] else [])"
  by (simp add: url_of_def url_params_request_url)

lemma results_per_page_url_of:
  "param_value (url_of env args) ''results_per_page'' =
     Some (urlencode (Number_toString env (case resultsCount args of None \<Rightarrow> Finite 20 | Some n \<Rightarrow> n)))"
  by (simp add: param_value_def url_params_url_of)

lemma parse_resultsCount_Num:
  "(parse_resultsCount (Num x) = Some y) = (y = x \<and> (\<exists>q. x = Finite q \<and> 1 \<le> q \<and> q \<le> 50))"
  by (cases x) (auto simp: parse_resultsCount_def)

lemma inputSchema_parse_Some:
  "inputSchema_parse raw = Some args \<Longrightarrow>
   \<exists>q. resultsCount args = Some (Finite q) \<and> 1 \<le> q \<and> q \<le> 50"
proof -
  assume a: "inputSchema_parse raw = Some args"
  then obtain n where n: "parse_resultsCount (raw_resultsCount raw) = Some n" "resultsCount args = Some n"
    by (auto simp: inputSchema_parse_def split: option.splits)
  show ?thesis
  proof (cases "raw_resultsCount raw")
    case Undefined
    with n show ?thesis by (auto simp: parse_resultsCount_def)
  next
    case (Str s)
    with n show ?thesis by (simp add: parse_resultsCount_def)
  next
    case (Num x)
    with n parse_resultsCount_Num [of x n] show ?thesis by auto
  next
    case Other
    with n show ?thesis by (simp add: parse_resultsCount_def)
  qed
qed

text \<open>Claim C7, as the code has it. \<open>execute\<close> neither clamps nor rejects: every network
  call carries as \<open>results_per_page\<close> the printed form of the \<open>resultsCount\<close> it was
  given, or of 20 when none was given. The bounds stand in \<open>inputSchema\<close> alone, which
  rejects and never clamps: it turns a missing \<open>resultsCount\<close> into 20, accepts a number
  unchanged exactly when it lies between 1 and 50, whole or not, and so lets through only
  argument objects whose \<open>resultsCount\<close> lies between 1 and 50.\<close>

theorem results_per_page_is_the_count_given:
  "(\<forall>u. Fetch u \<in> set (fst (execute env args)) \<longrightarrow>
        param_value u ''results_per_page'' =
          Some (urlencode (Number_toString env
                  (case resultsCount args of None \<Rightarrow> Finite 20 | Some n \<Rightarrow> n))))
   \<and> parse_resultsCount Undefined = Some (Finite 20)
   \<and> ((parse_resultsCount (Num x) = Some y) = (y = x \<and> (\<exists>q. x = Finite q \<and> 1 \<le> q \<and> q \<le> 50)))
   \<and> (inputSchema_parse raw = Some args' \<longrightarrow>
        (\<exists>q. resultsCount args' = Some (Finite q) \<and> 1 \<le> q \<and> q \<le> 50))"
proof -
  have "param_value u ''results_per_page'' =
          Some (urlencode (Number_toString env
                  (case resultsCount args of None \<Rightarrow> Finite 20 | Some n \<Rightarrow> n)))"
    if "Fetch u \<in> set (fst (execute env args))" for u
    using fetch_url_execute [OF that] by (simp add: results_per_page_url_of)
  moreover have "parse_resultsCount Undefined = Some (Finite 20)"
    by (simp add: parse_resultsCount_def)
  ultimately show ?thesis
    using parse_resultsCount_Num [of x y] inputSchema_parse_Some [of raw args']
    by blast
qed

lemma whole_toString_samples:
  "whole_toString (Finite 20) = ''20''" "whole_toString (Finite 100) = ''100''"
  "whole_toString (Finite (- 5)) = ''-5''"
  by (simp_all add: whole_toString_def toString_def nat_digits.simps digit_char_def)

lemma urlencode_samples:
  "urlencode ''20'' = ''20''" "urlencode ''100'' = ''100''" "urlencode ''-5'' = ''-5''"
  "urlencode ''Remote'' = ''Remote''"
  by (simp_all add: urlencode_def urlencode_char_def form_unreserved_def)

lemma sample_env_toString: "Number_toString (sample_env f) = whole_toString"
  by (simp add: sample_env_def)

text \<open>Without a count, 20 is sent. The schema turns 100 away and lets 20.5 through.\<close>

theorem results_per_page_is_the_count_given_witness:
  "fst (execute ok_env (sample_args None None)) = [Fetch (url_of ok_env (sample_args None None))]
   \<and> param_value (url_of ok_env (sample_args None None)) ''results_per_page'' = Some ''20''
   \<and> parse_resultsCount (Num (Finite 100)) = None
   \<and> parse_resultsCount (Num (Finite (41 / 2))) = Some (Finite (41 / 2))
   \<and> inputSchema_parse \<lparr> raw_query = Str ''AI engineer'', raw_location = Undefined,
                         raw_resultsCount = Undefined \<rparr> = Some (sample_args None (Some (Finite 20)))"
proof -
  let ?a = "sample_args None None"
  have f: "fst (execute ok_env ?a) = [Fetch (url_of ok_env ?a)]"
    by (simp add: ok_env_result)
  have p: "inputSchema_parse \<lparr> raw_query = Str ''AI engineer'', raw_location = Undefined,
                         raw_resultsCount = Undefined \<rparr> = Some (sample_args None (Some (Finite 20)))"
    by (simp add: inputSchema_parse_def parse_query_def parse_location_def parse_resultsCount_def
        sample_args_def)
  have n: "parse_resultsCount (Num (Finite 100)) = None"
    "parse_resultsCount (Num (Finite (41 / 2))) = Some (Finite (41 / 2))"
    using results_per_page_is_the_count_given [of ok_env ?a "Finite 100" "Finite 100"]
      results_per_page_is_the_count_given [of ok_env ?a "Finite (41 / 2)" "Finite (41 / 2)"]
    by (auto simp: parse_resultsCount_def)
  show ?thesis
    using results_per_page_is_the_count_given [of ok_env ?a "Finite 100" "Finite 100"] f p n
    by (simp add: sample_args_def ok_env_def sample_env_toString whole_toString_samples
        urlencode_samples)
qed

text \<open>Claim C7 as stated fails: given a count of 100, or of -5, \<open>execute\<close> sends it.\<close>

theorem execute_sends_any_count:
  "resultsCount (sample_args None (Some (Finite 100))) = Some (Finite 100)
   \<and> fst (execute ok_env (sample_args None (Some (Finite 100)))) =
       [Fetch (url_of ok_env (sample_args None (Some (Finite 100))))]
   \<and> param_value (url_of ok_env (sample_args None (Some (Finite 100)))) ''results_per_page'' =
       Some ''100''
   \<and> fst (execute ok_env (sample_args None (Some (Finite (- 5))))) =
       [Fetch (url_of ok_env (sample_args None (Some (Finite (- 5)))))]
   \<and> param_value (url_of ok_env (sample_args None (Some (Finite (- 5))))) ''results_per_page'' =
       Some ''-5''"
proof -
  have t: "Number_toString ok_env = whole_toString"
    by (simp add: ok_env_def sample_env_toString)
  show ?thesis
    by (simp add: ok_env_result results_per_page_url_of t sample_args_def
        whole_toString_samples urlencode_samples)
qed

subsection \<open>The location filter\<close>

lemma retry_loop_display_result:
  "snd (retry_loop env url args attempt lastError) = Inr r \<Longrightarrow> res_action r = ''display'' \<Longrightarrow>
   \<exists>jobs. r = display_result args jobs"
proof (induction env url args attempt lastError rule: retry_loop.induct)
  case (1 env url args attempt lastError)
  show ?case
  proof (cases "attempt \<le> maxRetries")
    case False
    with "1.prems" show ?thesis
      by (subst (asm) retry_loop.simps) (auto simp: error_result_def)
  next
    case le: True
    then show ?thesis
    proof (cases rule: retry_loop_turn [of attempt env url args lastError])
      case (finished r')
      with "1.prems" have "attempt_body env url args attempt = Inr r" by simp
      with "1.prems"(2) show ?thesis
        by (auto simp: attempt_body_def error_result_def
            split: fetch_outcome.splits if_splits sum.splits)
    next
      case throws
      with "1.prems" show ?thesis by simp
    next
      case (returns e r')
      with "1.prems" catch_handler_Return [OF returns(2)] show ?thesis by auto
    next
      case (continues e d)
      with "1.prems" "1.IH" [OF le continues(1,2) refl] show ?thesis by simp
    qed
  qed
qed

lemma execute_display_result:
  "snd (execute env args) = Inr r \<Longrightarrow> res_action r = ''display'' \<Longrightarrow>
   \<exists>jobs. r = display_result args jobs"
proof (cases "configured env")
  case True
  assume "snd (execute env args) = Inr r" "res_action r = ''display''"
  with True show ?thesis
    using retry_loop_display_result [of env "url_of env args" args 1 None r]
    by (simp add: execute_configured)
next
  case False
  assume "snd (execute env args) = Inr r" "res_action r = ''display''"
  with False show ?thesis by (auto simp: execute_not_configured error_result_def)
qed

text \<open>Claim C10, as the code has it. If \<open>location\<close> is supplied and is not the empty
  string, every network call carries it (encoded, and never as an empty value) as the
  \<open>where\<close> parameter, and a \<open>display\<close> result echoes it. If \<open>location\<close> is not
  supplied, or is the empty string, no network call has a \<open>where\<close> parameter, and a
  \<open>display\<close> result has the location \<open>all locations\<close>.\<close>

theorem location_filter_and_echo:
  "(location args = Some l \<and> l \<noteq> [] \<longrightarrow>
      (\<forall>u. Fetch u \<in> set (fst (execute env args)) \<longrightarrow>
           param_value u ''where'' = Some (urlencode l) \<and> urlencode l \<noteq> [])
      \<and> (snd (execute env args) = Inr r \<and> res_action r = ''display'' \<longrightarrow>
           res_location r = Some l))
   \<and> (location args = None \<or> location args = Some [] \<longrightarrow>
      (\<forall>u. Fetch u \<in> set (fst (execute env args)) \<longrightarrow> ''where'' \<notin> set (param_names u))
      \<and> (snd (execute env args) = Inr r \<and> res_action r = ''display'' \<longrightarrow>
           res_location r = Some ''all locations''))"
proof -
  have a: "param_value u ''where'' = Some (urlencode l) \<and> urlencode l \<noteq> []"
    if l: "location args = Some l \<and> l \<noteq> []" and u: "Fetch u \<in> set (fst (execute env args))" for u
    using fetch_url_execute [OF u] l
    by (simp add: param_value_def url_params_url_of truthy_str_def urlencode_nonempty)
  have b: "res_location r = Some l"
    if l: "location args = Some l \<and> l \<noteq> []"
      and d: "snd (execute env args) = Inr r" "res_action r = ''display''"
    using execute_display_result [OF d] l
    by (auto simp: display_result_def truthy_str_def)
  have n: "\<not> truthy_str (location args)" if "location args = None \<or> location args = Some []"
    using that by (auto simp: truthy_str_def)
  have c: "''where'' \<notin> set (param_names u)"
    if l: "location args = None \<or> location args = Some []"
      and u: "Fetch u \<in> set (fst (execute env args))" for u
    using fetch_url_execute [OF u] n [OF l]
    by (simp add: param_names_def url_params_url_of)
  have d: "res_location r = Some ''all locations''"
    if l: "location args = None \<or> location args = Some []"
      and d: "snd (execute env args) = Inr r" "res_action r = ''display''"
    using execute_display_result [OF d] n [OF l]
    by (auto simp: display_result_def)
  from a b c d show ?thesis by blast
qed

text \<open>A search in \<open>Remote\<close>, and a search without a location.\<close>

theorem location_filter_and_echo_witness:
  "fst (execute ok_env (sample_args (Some ''Remote'') None)) =
     [Fetch (url_of ok_env (sample_args (Some ''Remote'') None))]
   \<and> param_value (url_of ok_env (sample_args (Some ''Remote'') None)) ''where'' = Some ''Remote''
   \<and> (\<exists>r. snd (execute ok_env (sample_args (Some ''Remote'') None)) = Inr r
          \<and> res_action r = ''display'' \<and> res_location r = Some ''Remote'')
   \<and> fst (execute ok_env (sample_args None None)) = [Fetch (url_of ok_env (sample_args None None))]
   \<and> ''where'' \<notin> set (param_names (url_of ok_env (sample_args None None)))
   \<and> (\<exists>r. snd (execute ok_env (sample_args None None)) = Inr r
          \<and> res_action r = ''display'' \<and> res_location r = Some ''all locations'')"
proof -
  let ?j = "[mapAdzunaJobToJob whole_toLocaleString ''job-0'' ''2025-01-01T00:00:00.000Z''
               (sample_job (Some (Finite 80000)) (Some (Finite 120000)))]"
  have d: "snd (execute ok_env a) = Inr (display_result a ?j)"
    "res_action (display_result a ?j) = ''display''" for a
    by (simp_all add: ok_env_result display_result_def)
  have f: "fst (execute ok_env a) = [Fetch (url_of ok_env a)]" for a
    by (simp add: ok_env_result)
  show ?thesis
    using location_filter_and_echo [of "sample_args (Some ''Remote'') None" "''Remote''" ok_env
        "display_result (sample_args (Some ''Remote'') None) ?j"]
      location_filter_and_echo [of "sample_args None None" "[]" ok_env
        "display_result (sample_args None None) ?j"]
    by (simp add: d f urlencode_samples) (simp add: sample_args_def)
qed

text \<open>Claim C10 as stated fails for a location that is present and empty: it is not
  passed as the \<open>where\<close> parameter, and the result does not echo it.\<close>

theorem empty_location_is_dropped:
  "location (sample_args (Some []) None) = Some []
   \<and> fst (execute ok_env (sample_args (Some []) None)) =
       [Fetch (url_of ok_env (sample_args (Some []) None))]
   \<and> param_names (url_of ok_env (sample_args (Some []) None)) =
       [''app_id'', ''app_key'', ''results_per_page'', ''what'']
   \<and> (\<exists>r. snd (execute ok_env (sample_args (Some []) None)) = Inr r
          \<and> res_action r = ''display''
          \<and> res_location r = Some ''all locations'')"
  by (simp add: ok_env_result param_names_def url_params_url_of display_result_def
      truthy_str_def sample_args_def)

subsection \<open>Salary\<close>

text \<open>Claim C8, as the code has it. The code tests the two bounds for truthiness, so a
  bound of 0 (or \<open>NaN\<close>) counts as absent, and it prints an amount with the runtime's
  \<open>toLocaleString()\<close>, in the default locale of the host. If \<open>salary_min\<close> and
  \<open>salary_max\<close> are both present and truthy, the salary is \<open>$\<close>, the printed minimum,
  \<open> - $\<close> and the printed maximum; if \<open>salary_min\<close> is present and truthy and
  \<open>salary_max\<close> is absent or falsy, the salary is \<open>$\<close>, the printed minimum and \<open>+\<close>; if
  \<open>salary_min\<close> is absent or falsy, the salary field is absent.\<close>

theorem salary_formatting:
  "(salary_min adzunaJob = Some a \<and> a \<noteq> Finite 0 \<and> a \<noteq> NaN
    \<and> salary_max adzunaJob = Some b \<and> b \<noteq> Finite 0 \<and> b \<noteq> NaN \<longrightarrow>
      job_salary (mapAdzunaJobToJob toLocaleString uuid now adzunaJob) =
        Some (''$'' @ toLocaleString a @ '' - $'' @ toLocaleString b))
   \<and> (salary_min adzunaJob = Some a \<and> a \<noteq> Finite 0 \<and> a \<noteq> NaN
       \<and> (salary_max adzunaJob = None \<or> salary_max adzunaJob = Some (Finite 0)
           \<or> salary_max adzunaJob = Some NaN) \<longrightarrow>
      job_salary (mapAdzunaJobToJob toLocaleString uuid now adzunaJob) =
        Some (''$'' @ toLocaleString a @ ''+''))
   \<and> (salary_min adzunaJob = None \<or> salary_min adzunaJob = Some (Finite 0)
       \<or> salary_min adzunaJob = Some NaN \<longrightarrow>
      job_salary (mapAdzunaJobToJob toLocaleString uuid now adzunaJob) = None)"
  by (auto simp: mapAdzunaJobToJob_def format_salary_def truthy_num_def split: option.splits)

lemma whole_toLocaleString_samples:
  "whole_toLocaleString (Finite 80000) = ''80,000''"
  "whole_toLocaleString (Finite 120000) = ''120,000''"
  by (simp_all add: whole_toLocaleString_def en_US_whole_def nat_digits.simps digit_char_def)

text \<open>The three examples of the specification, on a host with the \<open>en-US\<close> locale, where
  a whole amount is printed with commas between its groups of three digits.\<close>

theorem salary_formatting_witness:
  "job_salary (mapAdzunaJobToJob whole_toLocaleString ''job-0'' ''2025-01-01T00:00:00.000Z''
                 (sample_job (Some (Finite 80000)) (Some (Finite 120000)))) =
     Some ''$80,000 - $120,000''
   \<and> job_salary (mapAdzunaJobToJob whole_toLocaleString ''job-0'' ''2025-01-01T00:00:00.000Z''
                 (sample_job (Some (Finite 80000)) None)) = Some ''$80,000+''
   \<and> job_salary (mapAdzunaJobToJob whole_toLocaleString ''job-0'' ''2025-01-01T00:00:00.000Z''
                 (sample_job None None)) = None"
  using salary_formatting [of "sample_job (Some (Finite 80000)) (Some (Finite 120000))"
      "Finite 80000" "Finite 120000" whole_toLocaleString "''job-0''" "''2025-01-01T00:00:00.000Z''"]
    salary_formatting [of "sample_job (Some (Finite 80000)) None"
      "Finite 80000" "Finite 0" whole_toLocaleString "''job-0''" "''2025-01-01T00:00:00.000Z''"]
    salary_formatting [of "sample_job None None"
      "Finite 0" "Finite 0" whole_toLocaleString "''job-0''" "''2025-01-01T00:00:00.000Z''"]
  by (simp add: sample_job_def whole_toLocaleString_samples)

text \<open>Claim C8 as stated fails when both bounds are present and the minimum is 0: the
  salary field is absent, whatever the host prints.\<close>

theorem zero_salary_min_is_dropped:
  "salary_min (sample_job (Some (Finite 0)) (Some (Finite 120000))) = Some (Finite 0)
   \<and> salary_max (sample_job (Some (Finite 0)) (Some (Finite 120000))) = Some (Finite 120000)
   \<and> job_salary (mapAdzunaJobToJob whole_toLocaleString ''job-0'' ''2025-01-01T00:00:00.000Z''
                  (sample_job (Some (Finite 0)) (Some (Finite 120000)))) = None"
  by (simp add: sample_job_def mapAdzunaJobToJob_def format_salary_def truthy_num_def)

subsection \<open>Requirements\<close>

text \<open>Claim C9. The requirements list is decided by two independent tests on the
  lowercased description: \<open>Bachelor's degree or equivalent experience\<close> is in the list
  exactly when \<open>bachelor\<close> or \<open>degree\<close> occurs in it, \<open>Relevant professional
  experience\<close> exactly when \<open>experience\<close> occurs in it; the list holds nothing else, and
  when both are in it they stand in this order.\<close>

theorem requirements_from_description:
  "job_requirements (mapAdzunaJobToJob toLocaleString uuid now adzunaJob) =
     (if (\<exists>p q. toLowerCase (az_description adzunaJob) = p @ ''bachelor'' @ q)
         \<or> (\<exists>p q. toLowerCase (az_description adzunaJob) = p @ ''degree'' @ q)
      then [''Bachelor's degree or equivalent experience''] else [])
     @ (if (\<exists>p q. toLowerCase (az_description adzunaJob) = p @ ''experience'' @ q)
        then [''Relevant professional experience''] else [])"
  by (simp add: mapAdzunaJobToJob_def extract_requirements_def Let_def includes_str_iff)

text \<open>The description \<open>Bachelor's degree required, 5 years experience\<close>.\<close>

theorem requirements_from_description_witness:
  "job_requirements (mapAdzunaJobToJob whole_toLocaleString ''job-0'' ''2025-01-01T00:00:00.000Z''
                       (sample_job None None)) =
     [''Bachelor's degree or equivalent experience'', ''Relevant professional experience'']"
proof -
  let ?d = "toLowerCase (az_description (sample_job None None))"
  have "includes_str ?d ''bachelor''" and "includes_str ?d ''experience''"
    by (simp_all add: sample_job_def toLowerCase_def toLowerCase_char_def)
  then have "\<exists>p q. ?d = p @ ''bachelor'' @ q" and "\<exists>p q. ?d = p @ ''experience'' @ q"
    by (simp_all only: includes_str_iff)
  then show ?thesis
    using requirements_from_description [of whole_toLocaleString "''job-0''"
        "''2025-01-01T00:00:00.000Z''" "sample_job None None"]
    by (simp only: if_True simp_thms append.simps)
qed

end
